theory Spec2Isabelle
  imports Main "HOL-Library.Word" "HOL-Library.Sublist"
begin

section \<open>Formatting helpers\<close>

text \<open>
  Go's \<^verbatim>\<open>%d\<close> verb of \<^verbatim>\<open>fmt\<close>: the decimal rendering of a signed integer.
\<close>

definition digit :: "nat \<Rightarrow> char" where
  "digit n = ''0123456789'' ! n"

function digits :: "nat \<Rightarrow> string" where
  "digits n = (if n < 10 then [digit n] else digits (n div 10) @ [digit (n mod 10)])"
  by pat_completeness auto
termination
  by (relation "measure id") auto

declare digits.simps [simp del]

definition fmt_d :: "int \<Rightarrow> string" where
  "fmt_d i = (if i < 0 then CHR ''-'' # digits (nat (- i)) else digits (nat i))"

section \<open>pkg/health: the Status State and the status endpoints\<close>

text \<open>
  \<^verbatim>\<open>type Server struct { server *http.Server; ready int32; requests int64 }\<close>.
  Of the embedded \<^verbatim>\<open>http.Server\<close> only the listening address is kept.
  \<^verbatim>\<open>ready\<close> and \<open>requests\<close> are machine integers; they are read as signed
  values with \<open>sint\<close>.
\<close>

record Server =
  Addr :: string
  ready :: "32 word"
  requests :: "64 word"

definition New :: "int \<Rightarrow> Server" where
  "New port = \<lparr>Addr = CHR '':'' # fmt_d port, ready = 0, requests = 0\<rparr>"

definition SetReady :: "bool \<Rightarrow> Server \<Rightarrow> Server" where
  "SetReady r s = (if r then s\<lparr>ready := 1\<rparr> else s\<lparr>ready := 0\<rparr>)"

definition IncrementRequests :: "Server \<Rightarrow> Server" where
  "IncrementRequests s = s\<lparr>requests := requests s + 1\<rparr>"

definition GetAddr :: "Server \<Rightarrow> string" where
  "GetAddr s = Addr s"

text \<open>
  What a handler writes to its \<^verbatim>\<open>http.ResponseWriter\<close>: the headers set, the status
  line written by \<^verbatim>\<open>WriteHeader\<close> and the body. The timestamp
  \<^verbatim>\<open>time.Now().Format(time.RFC3339)\<close> is read from the clock and is a parameter.
\<close>

record reply =
  header :: "(string \<times> string) list"
  status :: nat
  body :: string

definition StatusOK :: nat where
  "StatusOK = 200"

definition StatusServiceUnavailable :: nat where
  "StatusServiceUnavailable = 503"

definition healthHandler :: "string \<Rightarrow> Server \<Rightarrow> reply" where
  \<open>healthHandler now s =
     \<lparr>header = [(''Content-Type'', ''application/json'')],
      status = StatusOK,
      body = ''{"status":"healthy","timestamp":"'' @ now @ ''"}''\<rparr>\<close>

definition readyHandler :: "string \<Rightarrow> Server \<Rightarrow> reply" where
  \<open>readyHandler now s =
     (if ready s = 1
      then \<lparr>header = [(''Content-Type'', ''application/json'')],
            status = StatusOK,
            body = ''{"status":"ready","timestamp":"'' @ now @ ''"}''\<rparr>
      else \<lparr>header = [(''Content-Type'', ''application/json'')],
            status = StatusServiceUnavailable,
            body = ''{"status":"not_ready","timestamp":"'' @ now @ ''"}''\<rparr>)\<close>

definition metricsHandler :: "Server \<Rightarrow> reply" where
  "metricsHandler s =
     \<lparr>header = [(''Content-Type'', ''text/plain'')],
      status = StatusOK,
      body = ''# HTTP Client Metrics\<newline>http_requests_total '' @ fmt_d (sint (requests s))
             @ ''\<newline>service_ready '' @ fmt_d (sint (ready s)) @ ''\<newline>''\<rparr>"

text \<open>
  The two mutators are the only writers of the Status State. A history of the state is
  the list of mutator calls made on it since \<open>New\<close>, in the order in which the atomic
  stores and adds took effect.
\<close>

datatype mutator = CallSetReady bool | CallIncrementRequests

fun call :: "mutator \<Rightarrow> Server \<Rightarrow> Server" where
  "call (CallSetReady r) s = SetReady r s"
| "call CallIncrementRequests s = IncrementRequests s"

definition calls :: "mutator list \<Rightarrow> Server \<Rightarrow> Server" where
  "calls ms s = fold call ms s"

text \<open>The argument of the most recent \<open>SetReady\<close> of a history, if there is one.\<close>

fun lastSetReady :: "mutator list \<Rightarrow> bool option" where
  "lastSetReady [] = None"
| "lastSetReady (CallSetReady r # ms) =
     (case lastSetReady ms of None \<Rightarrow> Some r | Some r' \<Rightarrow> Some r')"
| "lastSetReady (CallIncrementRequests # ms) = lastSetReady ms"

section \<open>Errors, spans and logs\<close>

text \<open>
  Go error values. \<open>ErrorString\<close> is an error made by the standard library or the
  network stack; \<open>UrlError\<close> is \<^verbatim>\<open>*url.Error{Op, URL, Err}\<close>, which
  \<^verbatim>\<open>http.Client.Do\<close> returns; \<open>WrapError\<close> is what
  \<^verbatim>\<open>fmt.Errorf("<prefix>%w", err)\<close> builds. \<open>Error_msg\<close> is the method
  \<^verbatim>\<open>Error()\<close>; that of \<^verbatim>\<open>*url.Error\<close> puts the URL in double quotes.
\<close>

datatype err =
    ErrorString string
  | UrlError string string err
  | WrapError string err

fun Error_msg :: "err \<Rightarrow> string" where
  \<open>Error_msg (ErrorString m) = m\<close>
| \<open>Error_msg (UrlError opr url e) = opr @ '' "'' @ url @ ''": '' @ Error_msg e\<close>
| \<open>Error_msg (WrapError p e) = p @ Error_msg e\<close>

text \<open>
  The trace sink, as far as the program uses it (\<^verbatim>\<open>trace.Tracer\<close> and
  \<^verbatim>\<open>trace.Span\<close> of OpenTelemetry): a span has a name, the span of the context it
  was started in as its parent, attributes, a status code with a description, recorded
  errors, and is ended by \<^verbatim>\<open>End\<close>. Spans are numbered in the order in which they
  are started. Every call of \<^verbatim>\<open>Start\<close> and of \<^verbatim>\<open>End\<close> is appended to
  the list \<open>calls_made\<close>, so that the order of the calls can be read off.

  \<^verbatim>\<open>SetStatus\<close> follows the interface's contract: a status is replaced only by
  one of the same or a higher rank (Ok over Error over Unset), the description is kept
  only for Error, and an ended span is not updated any more.
\<close>

datatype codes = Unset | Error | Ok

fun rank :: "codes \<Rightarrow> nat" where
  "rank Unset = 0"
| "rank Error = 1"
| "rank Ok = 2"

datatype attr_value = AString string | AInt int | ABool bool | AStringSlice "string list"

type_synonym attrs = "(string \<times> attr_value) list"

type_synonym ctx = "nat option"

record span =
  span_name :: string
  span_parent :: ctx
  span_attrs :: attrs
  span_code :: codes
  span_description :: string
  span_errors :: "err list"
  span_ended :: bool

datatype span_call = Started nat string ctx | Ended nat

datatype level = DebugLevel | InfoLevel | WarnLevel | ErrorLevel

record log_entry =
  log_level :: level
  log_msg :: string
  log_fields :: attrs

text \<open>
  Everything the probe pipeline writes to: the spans of the trace sink, the order of the
  calls that started and ended them, and the records handed to the log sink (the sink's
  own level threshold is applied after that and is not part of the pipeline).
\<close>

record world =
  spans :: "span list"
  calls_made :: "span_call list"
  logs :: "log_entry list"

definition tracer_Start :: "ctx \<Rightarrow> string \<Rightarrow> attrs \<Rightarrow> world \<Rightarrow> (ctx \<times> nat) \<times> world" where
  "tracer_Start c name kvs w =
     (let i = length (spans w)
      in ((Some i, i),
          w\<lparr>spans := spans w @
                [\<lparr>span_name = name, span_parent = c, span_attrs = kvs, span_code = Unset,
                  span_description = [], span_errors = [], span_ended = False\<rparr>],
            calls_made := calls_made w @ [Started i name c]\<rparr>))"

definition update_span :: "nat \<Rightarrow> (span \<Rightarrow> span) \<Rightarrow> world \<Rightarrow> world" where
  "update_span i f w = w\<lparr>spans := (spans w)[i := f (spans w ! i)]\<rparr>"

definition RecordError :: "nat \<Rightarrow> err \<Rightarrow> world \<Rightarrow> world" where
  "RecordError i e w =
     update_span i (\<lambda>s. if span_ended s then s else s\<lparr>span_errors := span_errors s @ [e]\<rparr>) w"

definition SetStatus :: "nat \<Rightarrow> codes \<Rightarrow> string \<Rightarrow> world \<Rightarrow> world" where
  "SetStatus i c d w =
     update_span i
       (\<lambda>s. if span_ended s \<or> rank c < rank (span_code s) then s
            else s\<lparr>span_code := c, span_description := (if c = Error then d else [])\<rparr>) w"

definition SetAttributes :: "nat \<Rightarrow> attrs \<Rightarrow> world \<Rightarrow> world" where
  "SetAttributes i kvs w =
     update_span i (\<lambda>s. if span_ended s then s else s\<lparr>span_attrs := span_attrs s @ kvs\<rparr>) w"

definition span_End :: "nat \<Rightarrow> world \<Rightarrow> world" where
  "span_End i w =
     (update_span i (\<lambda>s. s\<lparr>span_ended := True\<rparr>) w)\<lparr>calls_made := calls_made w @ [Ended i]\<rparr>"

text \<open>
  \<^verbatim>\<open>span.SpanContext().TraceID()\<close> is the identifier of the root of the span's tree,
  \<^verbatim>\<open>SpanID()\<close> the span's own. The encoding of the identifiers as strings belongs
  to the tracer; their decimal numbers stand for it here. The search for the root is
  bounded by the number of spans.
\<close>

fun root_of :: "span list \<Rightarrow> nat \<Rightarrow> nat \<Rightarrow> nat" where
  "root_of sps 0 i = i"
| "root_of sps (Suc k) i =
     (if i < length sps
      then (case span_parent (sps ! i) of None \<Rightarrow> i | Some p \<Rightarrow> root_of sps k p)
      else i)"

definition TraceID :: "world \<Rightarrow> nat \<Rightarrow> string" where
  "TraceID w i = digits (root_of (spans w) (length (spans w)) i)"

definition SpanID :: "world \<Rightarrow> nat \<Rightarrow> string" where
  "SpanID w i = digits i"

definition zap_log :: "level \<Rightarrow> string \<Rightarrow> attrs \<Rightarrow> world \<Rightarrow> world" where
  "zap_log l m kvs w = w\<lparr>logs := logs w @ [\<lparr>log_level = l, log_msg = m, log_fields = kvs\<rparr>]\<rparr>"

text \<open>
  \<^verbatim>\<open>WithTraceContext(traceID, spanID)\<close> of pkg/logger: the fields that the derived
  logger adds in front of those of every record.
\<close>

definition WithTraceContext :: "string \<Rightarrow> string \<Rightarrow> attrs" where
  "WithTraceContext traceID spanID = [(''trace_id'', AString traceID), (''span_id'', AString spanID)]"

section \<open>pkg/httpclient: the Instrumented Transport and the Probe Client\<close>

text \<open>
  Of a parsed \<^verbatim>\<open>*url.URL\<close> the transport reads \<^verbatim>\<open>Scheme\<close>,
  \<^verbatim>\<open>Hostname()\<close>, \<^verbatim>\<open>Port()\<close> and \<^verbatim>\<open>String()\<close>. Of a response the
  program reads \<^verbatim>\<open>StatusCode\<close>, \<^verbatim>\<open>ContentLength\<close> and the body; \<open>Body\<close> is
  what \<^verbatim>\<open>io.ReadAll(resp.Body)\<close> will return, the bytes or a read error. A
  \<^verbatim>\<open>net.IP\<close> is kept as the text its method \<^verbatim>\<open>String()\<close> gives.
\<close>

record URL =
  Scheme :: string
  Hostname :: string
  Port :: string
  URL_String :: string

record Request =
  Method :: string
  Request_URL :: URL
  Context :: ctx

record Response =
  StatusCode :: int
  ContentLength :: int
  Body :: "err + string"

datatype IP = IP string

fun IP_String :: "IP \<Rightarrow> string" where
  "IP_String (IP s) = s"

fun ipToStrings :: "IP list \<Rightarrow> string list" where
  "ipToStrings [] = []"
| "ipToStrings (ip # ips) = IP_String ip # ipToStrings ips"

text \<open>
  What one call of \<^verbatim>\<open>RoundTrip\<close> meets outside the program: the result of
  \<^verbatim>\<open>net.LookupIP(host)\<close> and the time it took, and the result of the wrapped
  \<^verbatim>\<open>t.base.RoundTrip(req)\<close> and the time it took. A Go call returning
  \<^verbatim>\<open>(value, error)\<close> is a sum, \<open>Inl\<close> the error.
\<close>

record round_trip_env =
  LookupIP :: "err + IP list"
  dnsDuration_ms :: int
  base_RoundTrip :: "err + Response"
  httpDuration_ms :: int

text \<open>Attribute keys of \<^verbatim>\<open>semconv/v1.37.0\<close>.\<close>

definition HTTPResponseStatusCode :: "int \<Rightarrow> string \<times> attr_value" where
  "HTTPResponseStatusCode c = (''http.response.status_code'', AInt c)"

definition HTTPResponseSize :: "int \<Rightarrow> string \<times> attr_value" where
  "HTTPResponseSize n = (''http.response.size'', AInt n)"

definition RoundTrip :: "Request \<Rightarrow> round_trip_env \<Rightarrow> world \<Rightarrow> (err + Response) \<times> world" where
  "RoundTrip req0 env w0 =
     (let ((c, span), w1) =
            tracer_Start (Context req0) ''http.transport''
              [(''http.method'', AString (Method req0)),
               (''http.url'', AString (URL_String (Request_URL req0)))] w0;
          req = req0\<lparr>Context := c\<rparr>;
          host = Hostname (Request_URL req);
          port = (if Port (Request_URL req) = []
                  then (if Scheme (Request_URL req) = ''https'' then ''443'' else ''80'')
                  else Port (Request_URL req));
          ((_, dnsSpan), w2) = tracer_Start c ''dns.resolve'' [(''dns.hostname'', AString host)] w1;
          w3 = (case LookupIP env of
                  Inl e \<Rightarrow> SetStatus dnsSpan Error (Error_msg e) (RecordError dnsSpan e w2)
                | Inr ips \<Rightarrow>
                    SetStatus dnsSpan Ok []
                      (SetAttributes dnsSpan
                         [(''dns.addresses'', AStringSlice (ipToStrings ips)),
                          (''dns.duration_ms'', AInt (dnsDuration_ms env))] w2));
          w4 = span_End dnsSpan w3;
          ((_, tcpSpan), w5) =
            tracer_Start c ''tcp.connect''
              [(''net.peer.name'', AString host), (''net.peer.port'', AString port)] w4;
          w6 = (case base_RoundTrip env of
                  Inl e \<Rightarrow>
                    SetStatus span Error (Error_msg e)
                      (RecordError span e
                         (SetStatus tcpSpan Error (Error_msg e) (RecordError tcpSpan e w5)))
                | Inr resp \<Rightarrow>
                    (let w' = SetStatus tcpSpan Ok []
                                (SetAttributes tcpSpan
                                   [(''tcp.duration_ms'', AInt (httpDuration_ms env))] w5);
                         w'' = SetAttributes span
                                 [HTTPResponseStatusCode (StatusCode resp),
                                  HTTPResponseSize (ContentLength resp),
                                  (''http.duration_ms'', AInt (httpDuration_ms env))] w'
                     in if 400 \<le> StatusCode resp
                        then SetStatus span Error (''HTTP '' @ fmt_d (StatusCode resp)) w''
                        else SetStatus span Ok [] w''));
          w7 = span_End tcpSpan w6
      in (base_RoundTrip env, span_End span w7))"

text \<open>
  \<^verbatim>\<open>c.httpClient.Do(req)\<close> is the standard library's client with the instrumented
  transport installed. What the library does around the transport is given by a
  script: it makes one round trip and returns its result (\<open>Trip\<close>); or it makes a round
  trip whose response is a redirect and goes on with the request for the new location
  (\<open>Redirect\<close>); or it gives up with an error of its own without calling the transport
  (\<open>GiveUp\<close>, its redirect policy). Every error leaves \<^verbatim>\<open>Do\<close> as a
  \<^verbatim>\<open>*url.Error\<close> around it.
\<close>

datatype do_script =
    GiveUp err
  | Trip round_trip_env
  | Redirect round_trip_env URL do_script

definition uerr :: "Request \<Rightarrow> err \<Rightarrow> err" where
  "uerr req e = UrlError ''Get'' (URL_String (Request_URL req)) e"

fun client_Do :: "Request \<Rightarrow> do_script \<Rightarrow> world \<Rightarrow> (err + Response) \<times> world" where
  "client_Do req (GiveUp e) w = (Inl (uerr req e), w)"
| "client_Do req (Trip env) w =
     (case RoundTrip req env w of
        (Inl e, w') \<Rightarrow> (Inl (uerr req e), w')
      | (Inr resp, w') \<Rightarrow> (Inr resp, w'))"
| "client_Do req (Redirect env u next) w =
     (case RoundTrip req env w of
        (Inl e, w') \<Rightarrow> (Inl (uerr req e), w')
      | (Inr resp, w') \<Rightarrow> client_Do (req\<lparr>Request_URL := u\<rparr>) next w')"

declare client_Do.simps [simp del]

text \<open>
  What one call of \<^verbatim>\<open>Get\<close> meets: the result of
  \<^verbatim>\<open>http.NewRequestWithContext(ctx, "GET", url, nil)\<close> (an error for a malformed
  target, else the parsed URL), the script of \<^verbatim>\<open>Do\<close>, and the value of
  \<^verbatim>\<open>time.Since(time.Now())\<close> in the error log.
\<close>

record get_env =
  NewRequest :: "err + URL"
  Do :: do_script
  since_ns :: int

definition Get :: "ctx \<Rightarrow> string \<Rightarrow> get_env \<Rightarrow> world \<Rightarrow> (err + Response) \<times> world" where
  "Get c0 url env w0 =
     (let ((c, span), w1) =
            tracer_Start c0 ''http.get''
              [(''http.method'', AString ''GET''), (''http.url'', AString url)] w0
      in case NewRequest env of
           Inl e \<Rightarrow>
             (Inl (WrapError ''failed to create request: '' e),
              span_End span (SetStatus span Error (Error_msg e) (RecordError span e w1)))
         | Inr u \<Rightarrow>
             (case client_Do \<lparr>Method = ''GET'', Request_URL = u, Context = c\<rparr> (Do env) w1 of
                (Inl e, w2) \<Rightarrow>
                  (Inl (WrapError ''failed to make request: '' e),
                   span_End span
                     (zap_log ErrorLevel ''HTTP request failed''
                        [(''url'', AString url), (''error'', AString (Error_msg e)),
                         (''duration'', AInt (since_ns env))]
                        (SetStatus span Error (Error_msg e) (RecordError span e w2))))
              | (Inr resp, w2) \<Rightarrow>
                  (let w3 = SetAttributes span
                              [HTTPResponseStatusCode (StatusCode resp),
                               HTTPResponseSize (ContentLength resp)] w2;
                       w4 = (if 400 \<le> StatusCode resp
                             then zap_log WarnLevel ''HTTP request returned error status''
                                    [(''url'', AString url),
                                     (''status_code'', AInt (StatusCode resp)),
                                     (''response_size'', AInt (ContentLength resp))]
                                    (SetStatus span Error (''HTTP '' @ fmt_d (StatusCode resp)) w3)
                             else zap_log InfoLevel ''HTTP request completed successfully''
                                    [(''url'', AString url),
                                     (''status_code'', AInt (StatusCode resp)),
                                     (''response_size'', AInt (ContentLength resp))]
                                    (SetStatus span Ok [] w3))
                   in (Inr resp, span_End span w4))))"

section \<open>main: the Probe Scheduler\<close>

text \<open>
  The flags \<^verbatim>\<open>makeRequest\<close> and the loop read, and what one tick meets: the
  environment of \<^verbatim>\<open>client.Get\<close> and the elapsed time \<^verbatim>\<open>time.Since(start)\<close>,
  in milliseconds for the span and in nanoseconds for the log. The deferred
  \<^verbatim>\<open>span.End()\<close> is the last call on every path. The deferred
  \<^verbatim>\<open>resp.Body.Close()\<close> gives the connection back and writes to none of the
  sinks; it has no counterpart here.
\<close>

record flags =
  serviceName :: string
  targetURL :: string
  interval_ms :: int

record tick_env =
  get_env :: get_env
  duration_ms :: int
  duration_ns :: int

definition makeRequest :: "flags \<Rightarrow> ctx \<Rightarrow> string \<Rightarrow> int \<Rightarrow> tick_env \<Rightarrow> world \<Rightarrow> world" where
  "makeRequest fl c0 url requestCount env w0 =
     (let ((c, span), w1) =
            tracer_Start c0 ''request.cycle''
              [(''service.name'', AString (serviceName fl)),
               (''request.target_url'', AString url),
               (''request.interval_ms'', AInt (interval_ms fl)),
               (''request.count'', AInt requestCount)] w0
      in case Get c url (get_env env) w1 of
           (Inl e, w2) \<Rightarrow>
             (let w3 = SetStatus span Error (Error_msg e) (RecordError span e w2)
              in span_End span
                   (zap_log ErrorLevel ''Request failed''
                      (WithTraceContext (TraceID w3 span) (SpanID w3 span)
                         @ [(''error'', AString (Error_msg e))]) w3))
         | (Inr resp, w2) \<Rightarrow>
             (case Body resp of
                Inl e \<Rightarrow>
                  (let w3 = SetStatus span Error (Error_msg e) (RecordError span e w2)
                   in span_End span
                        (zap_log ErrorLevel ''Failed to read response body''
                           (WithTraceContext (TraceID w3 span) (SpanID w3 span)
                              @ [(''error'', AString (Error_msg e))]) w3))
              | Inr bytes \<Rightarrow>
                  (let w3 = SetAttributes span
                              [(''request.cycle.duration_ms'', AInt (duration_ms env)),
                               (''request.success'', ABool (StatusCode resp < 400)),
                               (''http.status_code'', AInt (StatusCode resp)),
                               (''response.size'', AInt (int (length bytes)))] w2;
                       w4 = (if 400 \<le> StatusCode resp
                             then SetAttributes span
                                    [(''request.error'',
                                      AString (''HTTP '' @ fmt_d (StatusCode resp)))]
                                    (SetStatus span Error (''HTTP '' @ fmt_d (StatusCode resp)) w3)
                             else SetStatus span Ok [] w3);
                       traceCtx = WithTraceContext (TraceID w4 span) (SpanID w4 span);
                       w5 = (if 400 \<le> StatusCode resp
                             then zap_log WarnLevel ''HTTP request returned error status''
                                    (traceCtx @
                                     [(''url'', AString url),
                                      (''status_code'', AInt (StatusCode resp)),
                                      (''response_size'', AInt (int (length bytes))),
                                      (''duration'', AInt (duration_ns env))]) w4
                             else zap_log InfoLevel ''HTTP request completed successfully''
                                    (traceCtx @
                                     [(''url'', AString url),
                                      (''status_code'', AInt (StatusCode resp)),
                                      (''response_size'', AInt (int (length bytes))),
                                      (''duration'', AInt (duration_ns env))]) w4)
                   in span_End span w5)))"

text \<open>
  The state of \<^verbatim>\<open>main\<close> while its loop runs: the trace and log sinks, the health
  server's Status State, the loop's own tick counter \<^verbatim>\<open>requestCount\<close> (a Go
  \<^verbatim>\<open>int\<close>, 64 bits on the platforms the program is built for) and whether the loop
  has returned.

  Each turn of the loop's \<^verbatim>\<open>select\<close> takes one of two cases: the context is done
  (\<open>CtxDone\<close>), or the ticker fired (\<open>TickerC\<close>, with what this tick meets). The loop is
  run over the list of the cases taken so far; it stops at the first \<open>CtxDone\<close>.
\<close>

record main_state =
  world :: world
  healthServer :: Server
  requestCount :: "64 word"
  returned :: bool

datatype select_case = CtxDone | TickerC tick_env

definition tick :: "flags \<Rightarrow> tick_env \<Rightarrow> main_state \<Rightarrow> main_state" where
  "tick fl env s =
     (let n = requestCount s + 1;
          w = makeRequest fl None (targetURL fl) (sint n) env (world s)
      in s\<lparr>world := w, healthServer := IncrementRequests (healthServer s), requestCount := n\<rparr>)"

fun request_loop :: "flags \<Rightarrow> select_case list \<Rightarrow> main_state \<Rightarrow> main_state" where
  "request_loop fl [] s = s"
| "request_loop fl (CtxDone # cs) s =
     s\<lparr>world := zap_log InfoLevel ''Shutting down'' [] (world s), returned := True\<rparr>"
| "request_loop fl (TickerC env # cs) s = request_loop fl cs (tick fl env s)"

text \<open>
  The state in which \<^verbatim>\<open>main\<close> enters the loop: nothing traced yet, the health
  server created on port 8080 and set ready, the tick counter 0. Of the records logged
  before the loop the last one is kept.
\<close>

definition main_start :: main_state where
  "main_start =
     \<lparr>world = zap_log InfoLevel ''Starting request loop'' []
                \<lparr>spans = [], calls_made = [], logs = []\<rparr>,
      healthServer = SetReady True (New 8080),
      requestCount = 0,
      returned = False\<rparr>"

text \<open>The ticks among the cases taken before the loop returns.\<close>

fun ticks_done :: "select_case list \<Rightarrow> nat" where
  "ticks_done [] = 0"
| "ticks_done (CtxDone # cs) = 0"
| "ticks_done (TickerC env # cs) = Suc (ticks_done cs)"

section \<open>Properties of traces\<close>

text \<open>
  Strict nesting of a list of \<^verbatim>\<open>Start\<close> and \<^verbatim>\<open>End\<close> calls, checked with the
  stack of the spans that are open: a span is started with the innermost open span as
  its parent and under the name the hierarchy allows there (a \<open>request.cycle\<close> only
  while no span is open, an \<open>http.get\<close> in a \<open>request.cycle\<close>, an \<open>http.transport\<close> in
  an \<open>http.get\<close>, a \<open>dns.resolve\<close> or \<open>tcp.connect\<close> in an \<open>http.transport\<close>); only
  the innermost open span is ended. \<open>nesting\<close> returns the stack left, or \<open>None\<close> at
  the first call that breaks the order.
\<close>

definition may_start :: "string \<Rightarrow> string option \<Rightarrow> bool" where
  "may_start name outer =
     (outer = (if name = ''request.cycle'' then None
               else if name = ''http.get'' then Some ''request.cycle''
               else if name = ''http.transport'' then Some ''http.get''
               else Some ''http.transport'')
      \<and> name \<in> set [''request.cycle'', ''http.get'', ''http.transport'',
                      ''dns.resolve'', ''tcp.connect''])"

fun nesting :: "(nat \<times> string) list \<Rightarrow> span_call list \<Rightarrow> (nat \<times> string) list option" where
  "nesting stk [] = Some stk"
| "nesting stk (Started i name p # cs) =
     (if p = (case stk of [] \<Rightarrow> None | (j, _) # _ \<Rightarrow> Some j)
         \<and> may_start name (case stk of [] \<Rightarrow> None | (_, m) # _ \<Rightarrow> Some m)
      then nesting ((i, name) # stk) cs
      else None)"
| "nesting stk (Ended i # cs) =
     (case stk of
        [] \<Rightarrow> None
      | (j, _) # rest \<Rightarrow> if i = j then nesting rest cs else None)"

definition strictly_nested :: "span_call list \<Rightarrow> bool" where
  "strictly_nested cs = (nesting [] cs = Some [])"

section \<open>Sample environments\<close>

text \<open>
  Concrete values at which the theorems below are instantiated: the program's default
  flags, its default target, and probes that meet a given DNS answer and a given result
  of the wrapped round trip in a single trip.
\<close>

definition default_flags :: flags where
  "default_flags =
     \<lparr>serviceName = ''http-client'', targetURL = ''https://httpbin.org/get'', interval_ms = 5000\<rparr>"

definition default_URL :: URL where
  "default_URL =
     \<lparr>Scheme = ''https'', Hostname = ''httpbin.org'', Port = [],
      URL_String = ''https://httpbin.org/get''\<rparr>"

definition no_world :: world where
  "no_world = \<lparr>spans = [], calls_made = [], logs = []\<rparr>"

definition a_request :: Request where
  "a_request = \<lparr>Method = ''GET'', Request_URL = default_URL, Context = None\<rparr>"

definition a_trip :: "err + IP list \<Rightarrow> err + Response \<Rightarrow> round_trip_env" where
  "a_trip dns base =
     \<lparr>LookupIP = dns, dnsDuration_ms = 12, base_RoundTrip = base, httpDuration_ms = 80\<rparr>"

definition a_get :: "err + IP list \<Rightarrow> err + Response \<Rightarrow> get_env" where
  "a_get dns base = \<lparr>NewRequest = Inr default_URL, Do = Trip (a_trip dns base), since_ns = 150\<rparr>"

definition a_probe :: "err + IP list \<Rightarrow> err + Response \<Rightarrow> tick_env" where
  "a_probe dns base = \<lparr>get_env = a_get dns base, duration_ms = 95, duration_ns = 95000000\<rparr>"

definition malformed_target :: get_env where
  "malformed_target =
     \<lparr>NewRequest = Inl (ErrorString ''missing protocol scheme''),
      Do = GiveUp (ErrorString ''unused''), since_ns = 0\<rparr>"

definition addresses :: "err + IP list" where
  "addresses = Inr [IP ''54.243.106.191'', IP ''3.210.94.60'']"

definition no_such_host :: err where
  "no_such_host = ErrorString ''lookup httpbin.org: no such host''"

definition connection_refused :: err where
  "connection_refused = ErrorString ''dial tcp 54.243.106.191:443: connect: connection refused''"

definition response_200 :: Response where
  "response_200 = \<lparr>StatusCode = 200, ContentLength = 13, Body = Inr ''test response''\<rparr>"

definition response_500 :: Response where
  "response_500 = \<lparr>StatusCode = 500, ContentLength = 21, Body = Inr ''internal server error''\<rparr>"

definition response_200_cut :: Response where
  "response_200_cut =
     \<lparr>StatusCode = 200, ContentLength = 13, Body = Inl (ErrorString ''unexpected EOF'')\<rparr>"

section \<open>Auxiliary lemmas\<close>

subsection \<open>The Status State and decimal numbers\<close>

lemma requests_SetReady [simp]: "requests (SetReady r s) = requests s"
  by (simp add: SetReady_def)

lemma ready_IncrementRequests [simp]: "ready (IncrementRequests s) = ready s"
  by (simp add: IncrementRequests_def)

lemma ready_fold_call:
  "ready (fold call ms s) = (case lastSetReady ms of None \<Rightarrow> ready s | Some r \<Rightarrow> if r then 1 else 0)"
proof (induction ms arbitrary: s)
  case Nil
  then show ?case by simp
next
  case (Cons m ms)
  then show ?case
    by (cases m) (auto simp: SetReady_def split: option.splits)
qed

lemma requests_fold_call:
  "requests (fold call ms s) = requests s + of_nat (count_list ms CallIncrementRequests)"
proof (induction ms arbitrary: s)
  case Nil
  then show ?case by simp
next
  case (Cons m ms)
  then show ?case
    by (cases m) (simp_all add: IncrementRequests_def)
qed

lemma ready_calls_New:
  "ready (calls ms (New port)) = (if lastSetReady ms = Some True then 1 else 0)"
  by (auto simp: calls_def ready_fold_call New_def split: option.splits)

lemma digits_numeral [simp]:
  "digits (numeral k) =
     (if numeral k < (10::nat) then [digit (numeral k)]
      else digits (numeral k div 10) @ [digit (numeral k mod 10)])"
  by (rule digits.simps)

lemma digits_0 [simp]: "digits 0 = ''0''"
  by (simp add: digits.simps [of 0] digit_def)

lemma digits_1 [simp]: "digits (Suc 0) = ''1''"
  by (simp add: digits.simps [of "Suc 0"] digit_def)

lemma requests_calls_New:
  "requests (calls ms (New port)) = word_of_nat (count_list ms CallIncrementRequests)"
  by (simp add: calls_def requests_fold_call New_def)

subsection \<open>The sinks\<close>

lemma update_span_proj [simp]:
  "spans (update_span i f w) = (spans w)[i := f (spans w ! i)]"
  "calls_made (update_span i f w) = calls_made w"
  "logs (update_span i f w) = logs w"
  by (simp_all add: update_span_def)

lemma RecordError_proj [simp]:
  "calls_made (RecordError i e w) = calls_made w"
  "logs (RecordError i e w) = logs w"
  "length (spans (RecordError i e w)) = length (spans w)"
  by (simp_all add: RecordError_def)

lemma SetStatus_proj [simp]:
  "calls_made (SetStatus i c d w) = calls_made w"
  "logs (SetStatus i c d w) = logs w"
  "length (spans (SetStatus i c d w)) = length (spans w)"
  by (simp_all add: SetStatus_def)

lemma SetAttributes_proj [simp]:
  "calls_made (SetAttributes i kvs w) = calls_made w"
  "logs (SetAttributes i kvs w) = logs w"
  "length (spans (SetAttributes i kvs w)) = length (spans w)"
  by (simp_all add: SetAttributes_def)

lemma span_End_proj [simp]:
  "calls_made (span_End i w) = calls_made w @ [Ended i]"
  "logs (span_End i w) = logs w"
  "length (spans (span_End i w)) = length (spans w)"
  by (simp_all add: span_End_def)

lemma zap_log_proj [simp]:
  "calls_made (zap_log l m kvs w) = calls_made w"
  "spans (zap_log l m kvs w) = spans w"
  "logs (zap_log l m kvs w) = logs w @ [\<lparr>log_level = l, log_msg = m, log_fields = kvs\<rparr>]"
  by (simp_all add: zap_log_def)

lemma tracer_Start_proj [simp]:
  "fst (tracer_Start c name kvs w) = (Some (length (spans w)), length (spans w))"
  "calls_made (snd (tracer_Start c name kvs w)) =
     calls_made w @ [Started (length (spans w)) name c]"
  "logs (snd (tracer_Start c name kvs w)) = logs w"
  "length (spans (snd (tracer_Start c name kvs w))) = Suc (length (spans w))"
  by (simp_all add: tracer_Start_def Let_def)

lemma tracer_Start_spans:
  "spans (snd (tracer_Start c name kvs w)) =
     spans w @ [\<lparr>span_name = name, span_parent = c, span_attrs = kvs, span_code = Unset,
                 span_description = [], span_errors = [], span_ended = False\<rparr>]"
  by (simp add: tracer_Start_def Let_def)

text \<open>Spans other than the one addressed are left alone.\<close>

lemma nth_RecordError [simp]: "j \<noteq> i \<Longrightarrow> spans (RecordError i e w) ! j = spans w ! j"
  by (simp add: RecordError_def)

lemma nth_SetStatus [simp]: "j \<noteq> i \<Longrightarrow> spans (SetStatus i c d w) ! j = spans w ! j"
  by (simp add: SetStatus_def)

lemma nth_SetAttributes [simp]: "j \<noteq> i \<Longrightarrow> spans (SetAttributes i kvs w) ! j = spans w ! j"
  by (simp add: SetAttributes_def)

lemma nth_span_End [simp]: "j \<noteq> i \<Longrightarrow> spans (span_End i w) ! j = spans w ! j"
  by (simp add: span_End_def)

lemma nth_tracer_Start [simp]:
  "j < length (spans w) \<Longrightarrow> spans (snd (tracer_Start c name kvs w)) ! j = spans w ! j"
  by (simp add: nth_append tracer_Start_spans)

lemma nth_tracer_Start_new [simp]:
  "j = length (spans w) \<Longrightarrow> spans (snd (tracer_Start c name kvs w)) ! j =
     \<lparr>span_name = name, span_parent = c, span_attrs = kvs, span_code = Unset,
      span_description = [], span_errors = [], span_ended = False\<rparr>"
  by (simp add: tracer_Start_spans)

text \<open>The span addressed.\<close>

lemma same_RecordError:
  "i < length (spans w) \<Longrightarrow>
   spans (RecordError i e w) ! i =
     (if span_ended (spans w ! i) then spans w ! i
      else (spans w ! i)\<lparr>span_errors := span_errors (spans w ! i) @ [e]\<rparr>)"
  by (simp add: RecordError_def)

lemma same_SetStatus:
  "i < length (spans w) \<Longrightarrow>
   spans (SetStatus i c d w) ! i =
     (if span_ended (spans w ! i) \<or> rank c < rank (span_code (spans w ! i)) then spans w ! i
      else (spans w ! i)\<lparr>span_code := c, span_description := (if c = Error then d else [])\<rparr>)"
  by (simp add: SetStatus_def)

lemma same_SetAttributes:
  "i < length (spans w) \<Longrightarrow>
   spans (SetAttributes i kvs w) ! i =
     (if span_ended (spans w ! i) then spans w ! i
      else (spans w ! i)\<lparr>span_attrs := span_attrs (spans w ! i) @ kvs\<rparr>)"
  by (simp add: SetAttributes_def)

lemma same_span_End:
  "i < length (spans w) \<Longrightarrow> spans (span_End i w) ! i = (spans w ! i)\<lparr>span_ended := True\<rparr>"
  by (simp add: span_End_def)

lemmas same_span = same_RecordError same_SetStatus same_SetAttributes same_span_End

subsection \<open>RoundTrip\<close>

lemma RoundTrip_result: "fst (RoundTrip req env w) = base_RoundTrip env"
  by (simp add: RoundTrip_def Let_def split_def)

lemma RoundTrip_calls_made:
  "calls_made (snd (RoundTrip req env w)) =
     calls_made w @
       [Started (length (spans w)) ''http.transport'' (Context req),
        Started (Suc (length (spans w))) ''dns.resolve'' (Some (length (spans w))),
        Ended (Suc (length (spans w))),
        Started (Suc (Suc (length (spans w)))) ''tcp.connect'' (Some (length (spans w))),
        Ended (Suc (Suc (length (spans w)))),
        Ended (length (spans w))]"
  by (cases "LookupIP env"; cases "base_RoundTrip env")
     (simp_all add: RoundTrip_def Let_def split_def)

lemma RoundTrip_logs: "logs (snd (RoundTrip req env w)) = logs w"
  by (cases "LookupIP env"; cases "base_RoundTrip env")
     (simp_all add: RoundTrip_def Let_def split_def)

lemma RoundTrip_length: "length (spans (snd (RoundTrip req env w))) = length (spans w) + 3"
  by (cases "LookupIP env"; cases "base_RoundTrip env")
     (simp_all add: RoundTrip_def Let_def split_def)

lemma RoundTrip_old_spans:
  "i < length (spans w) \<Longrightarrow> spans (snd (RoundTrip req env w)) ! i = spans w ! i"
  by (cases "LookupIP env"; cases "base_RoundTrip env")
     (simp_all add: RoundTrip_def Let_def split_def)



lemma RoundTrip_error_transport:
  "base_RoundTrip env = Inl e \<Longrightarrow>
   spans (snd (RoundTrip req env w)) ! length (spans w) =
     \<lparr>span_name = ''http.transport'', span_parent = Context req,
      span_attrs = [(''http.method'', AString (Method req)),
                    (''http.url'', AString (URL_String (Request_URL req)))],
      span_code = Error, span_description = Error_msg e, span_errors = [e],
      span_ended = True\<rparr>"
  by (cases "LookupIP env") (simp_all add: RoundTrip_def Let_def split_def same_span)

lemma RoundTrip_error_connect:
  "base_RoundTrip env = Inl e \<Longrightarrow>
   spans (snd (RoundTrip req env w)) ! (length (spans w) + 2) =
     \<lparr>span_name = ''tcp.connect'', span_parent = Some (length (spans w)),
      span_attrs = [(''net.peer.name'', AString (Hostname (Request_URL req))),
                    (''net.peer.port'',
                     AString (if Port (Request_URL req) = []
                              then (if Scheme (Request_URL req) = ''https'' then ''443'' else ''80'')
                              else Port (Request_URL req)))],
      span_code = Error, span_description = Error_msg e, span_errors = [e],
      span_ended = True\<rparr>"
  by (cases "LookupIP env") (simp_all add: RoundTrip_def Let_def split_def same_span)

lemma RoundTrip_response_transport:
  "base_RoundTrip env = Inr resp \<Longrightarrow>
   spans (snd (RoundTrip req env w)) ! length (spans w) =
     \<lparr>span_name = ''http.transport'', span_parent = Context req,
      span_attrs = [(''http.method'', AString (Method req)),
                    (''http.url'', AString (URL_String (Request_URL req))),
                    HTTPResponseStatusCode (StatusCode resp),
                    HTTPResponseSize (ContentLength resp),
                    (''http.duration_ms'', AInt (httpDuration_ms env))],
      span_code = (if 400 \<le> StatusCode resp then Error else Ok),
      span_description = (if 400 \<le> StatusCode resp then ''HTTP '' @ fmt_d (StatusCode resp) else []),
      span_errors = [], span_ended = True\<rparr>"
  by (cases "LookupIP env") (simp_all add: RoundTrip_def Let_def split_def same_span)

lemma RoundTrip_response_connect:
  "base_RoundTrip env = Inr resp \<Longrightarrow>
   spans (snd (RoundTrip req env w)) ! (length (spans w) + 2) =
     \<lparr>span_name = ''tcp.connect'', span_parent = Some (length (spans w)),
      span_attrs = [(''net.peer.name'', AString (Hostname (Request_URL req))),
                    (''net.peer.port'',
                     AString (if Port (Request_URL req) = []
                              then (if Scheme (Request_URL req) = ''https'' then ''443'' else ''80'')
                              else Port (Request_URL req))),
                    (''tcp.duration_ms'', AInt (httpDuration_ms env))],
      span_code = Ok, span_description = [], span_errors = [], span_ended = True\<rparr>"
  by (cases "LookupIP env") (simp_all add: RoundTrip_def Let_def split_def same_span)

lemma RoundTrip_dns_error:
  "LookupIP env = Inl e \<Longrightarrow>
   spans (snd (RoundTrip req env w)) ! (length (spans w) + 1) =
     \<lparr>span_name = ''dns.resolve'', span_parent = Some (length (spans w)),
      span_attrs = [(''dns.hostname'', AString (Hostname (Request_URL req)))],
      span_code = Error, span_description = Error_msg e, span_errors = [e],
      span_ended = True\<rparr>"
  by (cases "base_RoundTrip env") (simp_all add: RoundTrip_def Let_def split_def same_span)

subsection \<open>Nesting of calls\<close>

lemma nesting_append:
  "nesting stk (cs @ ds) = (case nesting stk cs of None \<Rightarrow> None | Some stk' \<Rightarrow> nesting stk' ds)"
proof (induction cs arbitrary: stk)
  case Nil
  then show ?case by simp
next
  case (Cons c cs)
  then show ?case
    by (cases c) (auto split: list.splits)
qed

lemma RoundTrip_nesting:
  assumes "nesting stk0 (calls_made w) = Some ((g, ''http.get'') # stk)"
    and "Context req = Some g"
  shows "nesting stk0 (calls_made (snd (RoundTrip req env w))) = Some ((g, ''http.get'') # stk)"
  using assms by (simp add: RoundTrip_calls_made nesting_append may_start_def)

subsection \<open>The client's Do\<close>



lemma client_Do_Trip:
  "client_Do req (Trip env) w =
     (case base_RoundTrip env of Inl e \<Rightarrow> Inl (uerr req e) | Inr resp \<Rightarrow> Inr resp,
      snd (RoundTrip req env w))"
  using RoundTrip_result [of req env w]
  by (cases "RoundTrip req env w") (auto simp: client_Do.simps split: sum.splits)

lemma client_Do_Redirect:
  "client_Do req (Redirect env u next) w =
     (case base_RoundTrip env of
        Inl e \<Rightarrow> (Inl (uerr req e), snd (RoundTrip req env w))
      | Inr resp \<Rightarrow> client_Do (req\<lparr>Request_URL := u\<rparr>) next (snd (RoundTrip req env w)))"
  using RoundTrip_result [of req env w]
  by (cases "RoundTrip req env w") (auto simp: client_Do.simps split: sum.splits)

lemma client_Do_result:
  "Request_URL req = Request_URL req' \<Longrightarrow>
   fst (client_Do req sc w) = fst (client_Do req' sc w')"
proof (induction sc arbitrary: req req' w w')
  case (GiveUp e)
  then show ?case by (simp add: uerr_def client_Do.simps)
next
  case (Trip env)
  then show ?case by (simp add: client_Do_Trip uerr_def split: sum.splits)
next
  case (Redirect env u sc)
  show ?case
  proof (cases "base_RoundTrip env")
    case (Inl e)
    with Redirect.prems show ?thesis by (simp add: client_Do_Redirect uerr_def)
  next
    case (Inr resp)
    have "fst (client_Do (req\<lparr>Request_URL := u\<rparr>) sc (snd (RoundTrip req env w))) =
          fst (client_Do (req'\<lparr>Request_URL := u\<rparr>) sc (snd (RoundTrip req' env w')))"
      by (rule Redirect.IH) simp
    with Inr show ?thesis by (simp add: client_Do_Redirect)
  qed
qed

lemma client_Do_logs: "logs (snd (client_Do req sc w)) = logs w"
proof (induction sc arbitrary: req w)
  case (Redirect env u sc)
  then show ?case
    by (cases "base_RoundTrip env") (simp_all add: client_Do_Redirect RoundTrip_logs)
qed (simp_all add: client_Do_Trip client_Do.simps(1) RoundTrip_logs)

lemma client_Do_length: "length (spans w) \<le> length (spans (snd (client_Do req sc w)))"
proof (induction sc arbitrary: req w)
  case (Redirect env u sc)
  show ?case
  proof (cases "base_RoundTrip env")
    case (Inl e)
    then show ?thesis by (simp add: client_Do_Redirect RoundTrip_length)
  next
    case (Inr resp)
    have "length (spans (snd (RoundTrip req env w)))
            \<le> length (spans (snd (client_Do (req\<lparr>Request_URL := u\<rparr>) sc (snd (RoundTrip req env w)))))"
      by (rule Redirect.IH)
    with Inr show ?thesis by (simp add: client_Do_Redirect RoundTrip_length)
  qed
qed (simp_all add: client_Do_Trip client_Do.simps(1) RoundTrip_length)

lemma client_Do_old_spans:
  "i < length (spans w) \<Longrightarrow> spans (snd (client_Do req sc w)) ! i = spans w ! i"
proof (induction sc arbitrary: req w)
  case (Redirect env u sc)
  show ?case
  proof (cases "base_RoundTrip env")
    case (Inl e)
    with Redirect.prems show ?thesis by (simp add: client_Do_Redirect RoundTrip_old_spans)
  next
    case (Inr resp)
    have "i < length (spans (snd (RoundTrip req env w)))"
      using Redirect.prems by (simp add: RoundTrip_length)
    then have "spans (snd (client_Do (req\<lparr>Request_URL := u\<rparr>) sc (snd (RoundTrip req env w)))) ! i =
               spans (snd (RoundTrip req env w)) ! i"
      by (rule Redirect.IH)
    with Inr Redirect.prems show ?thesis by (simp add: client_Do_Redirect RoundTrip_old_spans)
  qed
qed (simp_all add: client_Do_Trip client_Do.simps(1) RoundTrip_old_spans)

lemma client_Do_nesting:
  "nesting stk0 (calls_made w) = Some ((g, ''http.get'') # stk) \<Longrightarrow>
   Context req = Some g \<Longrightarrow>
   nesting stk0 (calls_made (snd (client_Do req sc w))) = Some ((g, ''http.get'') # stk)"
proof (induction sc arbitrary: req w)
  case (GiveUp e)
  then show ?case by (simp add: client_Do.simps)
next
  case (Trip env)
  then show ?case by (simp add: client_Do_Trip RoundTrip_nesting)
next
  case (Redirect env u sc)
  have step: "nesting stk0 (calls_made (snd (RoundTrip req env w))) = Some ((g, ''http.get'') # stk)"
    using Redirect.prems by (rule RoundTrip_nesting)
  show ?case
  proof (cases "base_RoundTrip env")
    case (Inl e)
    with step show ?thesis by (simp add: client_Do_Redirect)
  next
    case (Inr resp)
    have "nesting stk0 (calls_made (snd (client_Do (req\<lparr>Request_URL := u\<rparr>) sc (snd (RoundTrip req env w)))))
            = Some ((g, ''http.get'') # stk)"
      using step Redirect.prems(2) by (intro Redirect.IH) simp_all
    with Inr show ?thesis by (simp add: client_Do_Redirect)
  qed
qed


subsection \<open>Get\<close>

lemma Get_NewRequest_error:
  "NewRequest env = Inl e \<Longrightarrow>
   Get c url env w =
     (Inl (WrapError ''failed to create request: '' e),
      span_End (length (spans w))
        (SetStatus (length (spans w)) Error (Error_msg e)
           (RecordError (length (spans w)) e
              (snd (tracer_Start c ''http.get''
                 [(''http.method'', AString ''GET''), (''http.url'', AString url)] w)))))"
  by (simp add: Get_def Let_def split_def)

lemma Get_Do_error:
  assumes "NewRequest env = Inr u"
    and "client_Do \<lparr>Method = ''GET'', Request_URL = u, Context = Some (length (spans w))\<rparr> (Do env)
           (snd (tracer_Start c ''http.get''
              [(''http.method'', AString ''GET''), (''http.url'', AString url)] w)) = (Inl e, w2)"
  shows "Get c url env w =
     (Inl (WrapError ''failed to make request: '' e),
      span_End (length (spans w))
        (zap_log ErrorLevel ''HTTP request failed''
           [(''url'', AString url), (''error'', AString (Error_msg e)),
            (''duration'', AInt (since_ns env))]
           (SetStatus (length (spans w)) Error (Error_msg e)
              (RecordError (length (spans w)) e w2))))"
  using assms by (simp add: Get_def Let_def split_def)

lemma Get_Do_response:
  assumes "NewRequest env = Inr u"
    and "client_Do \<lparr>Method = ''GET'', Request_URL = u, Context = Some (length (spans w))\<rparr> (Do env)
           (snd (tracer_Start c ''http.get''
              [(''http.method'', AString ''GET''), (''http.url'', AString url)] w)) = (Inr resp, w2)"
  shows "Get c url env w =
     (Inr resp,
      span_End (length (spans w))
        (if 400 \<le> StatusCode resp
         then zap_log WarnLevel ''HTTP request returned error status''
                [(''url'', AString url), (''status_code'', AInt (StatusCode resp)),
                 (''response_size'', AInt (ContentLength resp))]
                (SetStatus (length (spans w)) Error (''HTTP '' @ fmt_d (StatusCode resp))
                   (SetAttributes (length (spans w))
                      [HTTPResponseStatusCode (StatusCode resp),
                       HTTPResponseSize (ContentLength resp)] w2))
         else zap_log InfoLevel ''HTTP request completed successfully''
                [(''url'', AString url), (''status_code'', AInt (StatusCode resp)),
                 (''response_size'', AInt (ContentLength resp))]
                (SetStatus (length (spans w)) Ok []
                   (SetAttributes (length (spans w))
                      [HTTPResponseStatusCode (StatusCode resp),
                       HTTPResponseSize (ContentLength resp)] w2))))"
  using assms by (simp add: Get_def Let_def split_def)

text \<open>The three ways through \<open>Get\<close>, as a case rule.\<close>

lemma Get_cases [case_names NewRequest_error Do_error Do_response]:
  assumes "\<And>e. NewRequest env = Inl e \<Longrightarrow> P"
    and "\<And>u e w2. NewRequest env = Inr u \<Longrightarrow>
           client_Do \<lparr>Method = ''GET'', Request_URL = u, Context = Some (length (spans w))\<rparr> (Do env)
             (snd (tracer_Start c ''http.get''
                [(''http.method'', AString ''GET''), (''http.url'', AString url)] w)) = (Inl e, w2)
           \<Longrightarrow> P"
    and "\<And>u resp w2. NewRequest env = Inr u \<Longrightarrow>
           client_Do \<lparr>Method = ''GET'', Request_URL = u, Context = Some (length (spans w))\<rparr> (Do env)
             (snd (tracer_Start c ''http.get''
                [(''http.method'', AString ''GET''), (''http.url'', AString url)] w)) = (Inr resp, w2)
           \<Longrightarrow> P"
  shows P
proof (cases "NewRequest env")
  case (Inl e)
  then show ?thesis by (rule assms(1))
next
  case (Inr u)
  obtain r w2 where d:
    "client_Do \<lparr>Method = ''GET'', Request_URL = u, Context = Some (length (spans w))\<rparr> (Do env)
       (snd (tracer_Start c ''http.get''
          [(''http.method'', AString ''GET''), (''http.url'', AString url)] w)) = (r, w2)"
    by (cases "client_Do \<lparr>Method = ''GET'', Request_URL = u, Context = Some (length (spans w))\<rparr> (Do env)
       (snd (tracer_Start c ''http.get''
          [(''http.method'', AString ''GET''), (''http.url'', AString url)] w))") blast
  show ?thesis
  proof (cases r)
    case (Inl e)
    with Inr d show ?thesis by (intro assms(2)) simp_all
  next
    case (Inr resp)
    with \<open>NewRequest env = Inr u\<close> d show ?thesis by (intro assms(3)) simp_all
  qed
qed

lemma Get_result: "fst (Get c url env w) = fst (Get c' url' env w')"
proof (cases "NewRequest env")
  case (Inl e)
  then show ?thesis by (simp add: Get_NewRequest_error)
next
  case (Inr u)
  have "fst (client_Do \<lparr>Method = ''GET'', Request_URL = u, Context = Some (length (spans w))\<rparr> (Do env)
           (snd (tracer_Start c ''http.get''
              [(''http.method'', AString ''GET''), (''http.url'', AString url)] w)))
      = fst (client_Do \<lparr>Method = ''GET'', Request_URL = u, Context = Some (length (spans w'))\<rparr> (Do env)
           (snd (tracer_Start c' ''http.get''
              [(''http.method'', AString ''GET''), (''http.url'', AString url')] w')))"
    by (rule client_Do_result) simp
  with Inr show ?thesis
    by (simp add: Get_def Let_def split_def split: sum.splits)
qed

lemma Get_length: "length (spans w) < length (spans (snd (Get c url env w)))"
proof (cases rule: Get_cases [where env = env and w = w and c = c and url = url])
  case (NewRequest_error e)
  then show ?thesis by (simp add: Get_NewRequest_error)
next
  case (Do_error u e w2)
  from Do_error(2) have "w2 = snd (client_Do \<lparr>Method = ''GET'', Request_URL = u, Context = Some (length (spans w))\<rparr> (Do env)
           (snd (tracer_Start c ''http.get''
              [(''http.method'', AString ''GET''), (''http.url'', AString url)] w)))"
    by simp
  then have "Suc (length (spans w)) \<le> length (spans w2)"
    using client_Do_length [of "snd (tracer_Start c ''http.get''
              [(''http.method'', AString ''GET''), (''http.url'', AString url)] w)"
              "\<lparr>Method = ''GET'', Request_URL = u, Context = Some (length (spans w))\<rparr>" "Do env"]
    by simp
  then show ?thesis by (simp add: Get_Do_error [OF Do_error])
next
  case (Do_response u resp w2)
  from Do_response(2) have "w2 = snd (client_Do \<lparr>Method = ''GET'', Request_URL = u, Context = Some (length (spans w))\<rparr> (Do env)
           (snd (tracer_Start c ''http.get''
              [(''http.method'', AString ''GET''), (''http.url'', AString url)] w)))"
    by simp
  then have "Suc (length (spans w)) \<le> length (spans w2)"
    using client_Do_length [of "snd (tracer_Start c ''http.get''
              [(''http.method'', AString ''GET''), (''http.url'', AString url)] w)"
              "\<lparr>Method = ''GET'', Request_URL = u, Context = Some (length (spans w))\<rparr>" "Do env"]
    by simp
  then show ?thesis by (simp add: Get_Do_response [OF Do_response])
qed

lemma Get_old_spans:
  assumes "i < length (spans w)"
  shows "spans (snd (Get c url env w)) ! i = spans w ! i"
proof (cases rule: Get_cases [where env = env and w = w and c = c and url = url])
  case (NewRequest_error e)
  with assms show ?thesis by (simp add: Get_NewRequest_error)
next
  case (Do_error u e w2)
  from Do_error(2) have "w2 = snd (client_Do \<lparr>Method = ''GET'', Request_URL = u, Context = Some (length (spans w))\<rparr> (Do env)
           (snd (tracer_Start c ''http.get''
              [(''http.method'', AString ''GET''), (''http.url'', AString url)] w)))"
    by simp
  then have "spans w2 ! i = spans w ! i"
    using assms by (simp add: client_Do_old_spans)
  with assms show ?thesis by (simp add: Get_Do_error [OF Do_error])
next
  case (Do_response u resp w2)
  from Do_response(2) have "w2 = snd (client_Do \<lparr>Method = ''GET'', Request_URL = u, Context = Some (length (spans w))\<rparr> (Do env)
           (snd (tracer_Start c ''http.get''
              [(''http.method'', AString ''GET''), (''http.url'', AString url)] w)))"
    by simp
  then have "spans w2 ! i = spans w ! i"
    using assms by (simp add: client_Do_old_spans)
  with assms show ?thesis by (simp add: Get_Do_response [OF Do_response])
qed

lemma Get_nesting:
  assumes "nesting stk0 (calls_made w) = Some ((r, ''request.cycle'') # stk)"
  shows "nesting stk0 (calls_made (snd (Get (Some r) url env w))) = Some ((r, ''request.cycle'') # stk)"
proof -
  let ?w1 = "snd (tracer_Start (Some r) ''http.get''
              [(''http.method'', AString ''GET''), (''http.url'', AString url)] w)"
  have start: "nesting stk0 (calls_made ?w1) =
                 Some ((length (spans w), ''http.get'') # (r, ''request.cycle'') # stk)"
    using assms by (simp add: nesting_append may_start_def)
  show ?thesis
  proof (cases rule: Get_cases [where env = env and w = w and c = "Some r" and url = url])
    case (NewRequest_error e)
    with assms show ?thesis by (simp add: Get_NewRequest_error nesting_append may_start_def)
  next
    case (Do_error u e w2)
    from Do_error(2) have "w2 = snd (client_Do \<lparr>Method = ''GET'', Request_URL = u, Context = Some (length (spans w))\<rparr> (Do env) ?w1)"
      by simp
    then have "nesting stk0 (calls_made w2) =
                 Some ((length (spans w), ''http.get'') # (r, ''request.cycle'') # stk)"
      using start by (simp add: client_Do_nesting)
    then show ?thesis by (simp add: Get_Do_error [OF Do_error] nesting_append)
  next
    case (Do_response u resp w2)
    from Do_response(2) have "w2 = snd (client_Do \<lparr>Method = ''GET'', Request_URL = u, Context = Some (length (spans w))\<rparr> (Do env) ?w1)"
      by simp
    then have "nesting stk0 (calls_made w2) =
                 Some ((length (spans w), ''http.get'') # (r, ''request.cycle'') # stk)"
      using start by (simp add: client_Do_nesting)
    then show ?thesis by (simp add: Get_Do_response [OF Do_response] nesting_append)
  qed
qed

subsection \<open>makeRequest\<close>

lemma makeRequest_Get_error:
  assumes "Get (Some (length (spans w))) url (get_env env)
           (snd (tracer_Start c0 ''request.cycle''
              [(''service.name'', AString (serviceName fl)),
               (''request.target_url'', AString url),
               (''request.interval_ms'', AInt (interval_ms fl)),
               (''request.count'', AInt rc)] w)) = (Inl e, w2)"
  shows "makeRequest fl c0 url rc env w =
     span_End (length (spans w))
       (zap_log ErrorLevel ''Request failed''
          (WithTraceContext
             (TraceID (SetStatus (length (spans w)) Error (Error_msg e)
                         (RecordError (length (spans w)) e w2)) (length (spans w)))
             (SpanID (SetStatus (length (spans w)) Error (Error_msg e)
                         (RecordError (length (spans w)) e w2)) (length (spans w)))
           @ [(''error'', AString (Error_msg e))])
          (SetStatus (length (spans w)) Error (Error_msg e)
             (RecordError (length (spans w)) e w2)))"
  using assms by (simp add: makeRequest_def Let_def split_def)

lemma makeRequest_read_error:
  assumes "Get (Some (length (spans w))) url (get_env env)
           (snd (tracer_Start c0 ''request.cycle''
              [(''service.name'', AString (serviceName fl)),
               (''request.target_url'', AString url),
               (''request.interval_ms'', AInt (interval_ms fl)),
               (''request.count'', AInt rc)] w)) = (Inr resp, w2)" and "Body resp = Inl e"
  shows "makeRequest fl c0 url rc env w =
     span_End (length (spans w))
       (zap_log ErrorLevel ''Failed to read response body''
          (WithTraceContext
             (TraceID (SetStatus (length (spans w)) Error (Error_msg e)
                         (RecordError (length (spans w)) e w2)) (length (spans w)))
             (SpanID (SetStatus (length (spans w)) Error (Error_msg e)
                         (RecordError (length (spans w)) e w2)) (length (spans w)))
           @ [(''error'', AString (Error_msg e))])
          (SetStatus (length (spans w)) Error (Error_msg e)
             (RecordError (length (spans w)) e w2)))"
  using assms by (simp add: makeRequest_def Let_def split_def)

lemma makeRequest_error_status:
  assumes "Get (Some (length (spans w))) url (get_env env)
           (snd (tracer_Start c0 ''request.cycle''
              [(''service.name'', AString (serviceName fl)),
               (''request.target_url'', AString url),
               (''request.interval_ms'', AInt (interval_ms fl)),
               (''request.count'', AInt rc)] w)) = (Inr resp, w2)" and "Body resp = Inr bytes" and "400 \<le> StatusCode resp"
  shows "\<exists>kvs. makeRequest fl c0 url rc env w =
     span_End (length (spans w))
       (zap_log WarnLevel ''HTTP request returned error status'' kvs
          (SetAttributes (length (spans w))
             [(''request.error'', AString (''HTTP '' @ fmt_d (StatusCode resp)))]
             (SetStatus (length (spans w)) Error (''HTTP '' @ fmt_d (StatusCode resp))
                (SetAttributes (length (spans w))
                   [(''request.cycle.duration_ms'', AInt (duration_ms env)),
                    (''request.success'', ABool (StatusCode resp < 400)),
                    (''http.status_code'', AInt (StatusCode resp)),
                    (''response.size'', AInt (int (length bytes)))] w2))))"
  using assms by (simp add: makeRequest_def Let_def split_def) (rule exI, rule refl)

lemma makeRequest_ok_status:
  assumes "Get (Some (length (spans w))) url (get_env env)
           (snd (tracer_Start c0 ''request.cycle''
              [(''service.name'', AString (serviceName fl)),
               (''request.target_url'', AString url),
               (''request.interval_ms'', AInt (interval_ms fl)),
               (''request.count'', AInt rc)] w)) = (Inr resp, w2)" and "Body resp = Inr bytes" and "StatusCode resp < 400"
  shows "\<exists>kvs. makeRequest fl c0 url rc env w =
     span_End (length (spans w))
       (zap_log InfoLevel ''HTTP request completed successfully'' kvs
          (SetStatus (length (spans w)) Ok []
             (SetAttributes (length (spans w))
                [(''request.cycle.duration_ms'', AInt (duration_ms env)),
                 (''request.success'', ABool (StatusCode resp < 400)),
                 (''http.status_code'', AInt (StatusCode resp)),
                 (''response.size'', AInt (int (length bytes)))] w2)))"
  using assms by (simp add: makeRequest_def Let_def split_def) (rule exI, rule refl)

lemma makeRequest_cases
  [case_names Get_error read_error error_status ok_status]:
  assumes "\<And>e w2. Get (Some (length (spans w))) url (get_env env)
           (snd (tracer_Start c0 ''request.cycle''
              [(''service.name'', AString (serviceName fl)),
               (''request.target_url'', AString url),
               (''request.interval_ms'', AInt (interval_ms fl)),
               (''request.count'', AInt rc)] w)) = (Inl e, w2) \<Longrightarrow> P"
    and "\<And>resp e w2. Get (Some (length (spans w))) url (get_env env)
           (snd (tracer_Start c0 ''request.cycle''
              [(''service.name'', AString (serviceName fl)),
               (''request.target_url'', AString url),
               (''request.interval_ms'', AInt (interval_ms fl)),
               (''request.count'', AInt rc)] w)) = (Inr resp, w2) \<Longrightarrow> Body resp = Inl e \<Longrightarrow> P"
    and "\<And>resp bytes w2. Get (Some (length (spans w))) url (get_env env)
           (snd (tracer_Start c0 ''request.cycle''
              [(''service.name'', AString (serviceName fl)),
               (''request.target_url'', AString url),
               (''request.interval_ms'', AInt (interval_ms fl)),
               (''request.count'', AInt rc)] w)) = (Inr resp, w2) \<Longrightarrow> Body resp = Inr bytes \<Longrightarrow>
           400 \<le> StatusCode resp \<Longrightarrow> P"
    and "\<And>resp bytes w2. Get (Some (length (spans w))) url (get_env env)
           (snd (tracer_Start c0 ''request.cycle''
              [(''service.name'', AString (serviceName fl)),
               (''request.target_url'', AString url),
               (''request.interval_ms'', AInt (interval_ms fl)),
               (''request.count'', AInt rc)] w)) = (Inr resp, w2) \<Longrightarrow> Body resp = Inr bytes \<Longrightarrow>
           StatusCode resp < 400 \<Longrightarrow> P"
  shows P
proof -
  obtain r w2 where g: "Get (Some (length (spans w))) url (get_env env)
           (snd (tracer_Start c0 ''request.cycle''
              [(''service.name'', AString (serviceName fl)),
               (''request.target_url'', AString url),
               (''request.interval_ms'', AInt (interval_ms fl)),
               (''request.count'', AInt rc)] w)) = (r, w2)"
    by (cases "Get (Some (length (spans w))) url (get_env env)
           (snd (tracer_Start c0 ''request.cycle''
              [(''service.name'', AString (serviceName fl)),
               (''request.target_url'', AString url),
               (''request.interval_ms'', AInt (interval_ms fl)),
               (''request.count'', AInt rc)] w))") blast
  show ?thesis
  proof (cases r)
    case (Inl e)
    with g show ?thesis by (intro assms(1)) simp
  next
    case (Inr resp)
    note r = this
    show ?thesis
    proof (cases "Body resp")
      case (Inl e)
      with g r show ?thesis by (intro assms(2)) simp_all
    next
      case (Inr bytes)
      show ?thesis
      proof (cases "400 \<le> StatusCode resp")
        case True
        with g r Inr show ?thesis by (intro assms(3)) simp_all
      next
        case False
        then have "StatusCode resp < 400" by simp
        with g r Inr show ?thesis by (intro assms(4)) simp_all
      qed
    qed
  qed
qed

text \<open>What \<open>Get\<close> leaves of the root span it was called under.\<close>

lemma root_after_Get:
  assumes "Get (Some (length (spans w))) url (get_env env)
           (snd (tracer_Start c0 ''request.cycle''
              [(''service.name'', AString (serviceName fl)),
               (''request.target_url'', AString url),
               (''request.interval_ms'', AInt (interval_ms fl)),
               (''request.count'', AInt rc)] w)) = (r, w2)"
  shows "length (spans w) < length (spans w2)"
    and "spans w2 ! length (spans w) =
           \<lparr>span_name = ''request.cycle'', span_parent = c0,
            span_attrs = [(''service.name'', AString (serviceName fl)),
                          (''request.target_url'', AString url),
                          (''request.interval_ms'', AInt (interval_ms fl)),
                          (''request.count'', AInt rc)],
            span_code = Unset, span_description = [], span_errors = [], span_ended = False\<rparr>"
proof -
  have w2: "w2 = snd (Get (Some (length (spans w))) url (get_env env)
           (snd (tracer_Start c0 ''request.cycle''
              [(''service.name'', AString (serviceName fl)),
               (''request.target_url'', AString url),
               (''request.interval_ms'', AInt (interval_ms fl)),
               (''request.count'', AInt rc)] w)))"
    using assms by simp
  have "length (spans (snd (tracer_Start c0 ''request.cycle''
              [(''service.name'', AString (serviceName fl)),
               (''request.target_url'', AString url),
               (''request.interval_ms'', AInt (interval_ms fl)),
               (''request.count'', AInt rc)] w))) < length (spans w2)"
    unfolding w2 by (rule Get_length)
  then show "length (spans w) < length (spans w2)"
    by simp
  have "spans w2 ! length (spans w) = spans (snd (tracer_Start c0 ''request.cycle''
              [(''service.name'', AString (serviceName fl)),
               (''request.target_url'', AString url),
               (''request.interval_ms'', AInt (interval_ms fl)),
               (''request.count'', AInt rc)] w)) ! length (spans w)"
    unfolding w2 by (rule Get_old_spans) simp
  then show "spans w2 ! length (spans w) =
           \<lparr>span_name = ''request.cycle'', span_parent = c0,
            span_attrs = [(''service.name'', AString (serviceName fl)),
                          (''request.target_url'', AString url),
                          (''request.interval_ms'', AInt (interval_ms fl)),
                          (''request.count'', AInt rc)],
            span_code = Unset, span_description = [], span_errors = [], span_ended = False\<rparr>"
    by simp
qed

lemma nesting_after_Get:
  assumes "Get (Some (length (spans w))) url (get_env env)
           (snd (tracer_Start c0 ''request.cycle''
              [(''service.name'', AString (serviceName fl)),
               (''request.target_url'', AString url),
               (''request.interval_ms'', AInt (interval_ms fl)),
               (''request.count'', AInt rc)] w)) = (r, w2)" and "nesting stk0 (calls_made w) = Some []" and "c0 = None"
  shows "nesting stk0 (calls_made w2) = Some [(length (spans w), ''request.cycle'')]"
proof -
  have w2: "w2 = snd (Get (Some (length (spans w))) url (get_env env)
           (snd (tracer_Start c0 ''request.cycle''
              [(''service.name'', AString (serviceName fl)),
               (''request.target_url'', AString url),
               (''request.interval_ms'', AInt (interval_ms fl)),
               (''request.count'', AInt rc)] w)))"
    using assms(1) by simp
  have "nesting stk0 (calls_made (snd (tracer_Start c0 ''request.cycle''
              [(''service.name'', AString (serviceName fl)),
               (''request.target_url'', AString url),
               (''request.interval_ms'', AInt (interval_ms fl)),
               (''request.count'', AInt rc)] w))) = Some [(length (spans w), ''request.cycle'')]"
    using assms(2,3) by (simp add: nesting_append may_start_def)
  then show ?thesis
    unfolding w2 by (rule Get_nesting)
qed

lemma makeRequest_nesting:
  assumes "nesting stk0 (calls_made w) = Some []"
  shows "nesting stk0 (calls_made (makeRequest fl None url rc env w)) = Some []"
proof (cases rule: makeRequest_cases [where fl = fl and env = env and w = w and ?c0.0 = None and url = url and rc = rc])
  case (Get_error e w2)
  from nesting_after_Get [OF this assms] show ?thesis
    by (simp add: makeRequest_Get_error [OF Get_error] nesting_append)
next
  case (read_error resp e w2)
  from nesting_after_Get [OF this(1) assms] show ?thesis
    by (simp add: makeRequest_read_error [OF read_error] nesting_append)
next
  case (error_status resp bytes w2)
  from makeRequest_error_status [OF this] obtain kvs where
    "makeRequest fl None url rc env w =
     span_End (length (spans w))
       (zap_log WarnLevel ''HTTP request returned error status'' kvs
          (SetAttributes (length (spans w))
             [(''request.error'', AString (''HTTP '' @ fmt_d (StatusCode resp)))]
             (SetStatus (length (spans w)) Error (''HTTP '' @ fmt_d (StatusCode resp))
                (SetAttributes (length (spans w))
                   [(''request.cycle.duration_ms'', AInt (duration_ms env)),
                    (''request.success'', ABool (StatusCode resp < 400)),
                    (''http.status_code'', AInt (StatusCode resp)),
                    (''response.size'', AInt (int (length bytes)))] w2))))" ..
  with nesting_after_Get [OF error_status(1) assms] show ?thesis
    by (simp add: nesting_append)
next
  case (ok_status resp bytes w2)
  from makeRequest_ok_status [OF this] obtain kvs where
    "makeRequest fl None url rc env w =
     span_End (length (spans w))
       (zap_log InfoLevel ''HTTP request completed successfully'' kvs
          (SetStatus (length (spans w)) Ok []
             (SetAttributes (length (spans w))
                [(''request.cycle.duration_ms'', AInt (duration_ms env)),
                 (''request.success'', ABool (StatusCode resp < 400)),
                 (''http.status_code'', AInt (StatusCode resp)),
                 (''response.size'', AInt (int (length bytes)))] w2)))" ..
  with nesting_after_Get [OF ok_status(1) assms] show ?thesis
    by (simp add: nesting_append)
qed

lemma tick_proj [simp]:
  "world (tick fl env s) =
     makeRequest fl None (targetURL fl) (sint (requestCount s + 1)) env (world s)"
  "healthServer (tick fl env s) = IncrementRequests (healthServer s)"
  "requestCount (tick fl env s) = requestCount s + 1"
  "returned (tick fl env s) = returned s"
  by (simp_all add: tick_def Let_def)

lemma request_loop_nesting:
  "nesting [] (calls_made (world s)) = Some [] \<Longrightarrow>
   nesting [] (calls_made (world (request_loop fl cs s))) = Some []"
proof (induction cs arbitrary: s)
  case Nil
  then show ?case by simp
next
  case (Cons c cs)
  show ?case
  proof (cases c)
    case CtxDone
    with Cons.prems show ?thesis by simp
  next
    case (TickerC env)
    have "nesting [] (calls_made (world (tick fl env s))) = Some []"
      using Cons.prems by (simp add: makeRequest_nesting)
    then have "nesting [] (calls_made (world (request_loop fl cs (tick fl env s)))) = Some []"
      by (rule Cons.IH)
    with TickerC show ?thesis by simp
  qed
qed


lemma request_loop_requests:
  "requests (healthServer (request_loop fl cs s)) =
     requests (healthServer s) + word_of_nat (ticks_done cs)"
proof (induction cs arbitrary: s)
  case Nil
  then show ?case by simp
next
  case (Cons c cs)
  then show ?case
    by (cases c) (simp_all add: IncrementRequests_def)
qed



lemma sint_small: "N < 2 ^ 63 \<Longrightarrow> sint (word_of_nat N :: 64 word) = int N"
  by (simp add: signed_of_nat signed_take_bit_int_eq_self)

lemma count_list_shuffles:
  "zs \<in> shuffles xs ys \<Longrightarrow> count_list zs a = count_list xs a + count_list ys a"
  by (induction xs ys arbitrary: zs rule: shuffles.induct) auto

lemma ticks_done_replicate: "ticks_done (replicate n (TickerC env)) = n"
  by (induction n) simp_all

lemma Get_in_makeRequest:
  assumes "fst (Get c' url' (get_env env) w') = r"
  shows "Get (Some (length (spans w))) url (get_env env)
           (snd (tracer_Start c0 ''request.cycle''
              [(''service.name'', AString (serviceName fl)),
               (''request.target_url'', AString url),
               (''request.interval_ms'', AInt (interval_ms fl)),
               (''request.count'', AInt rc)] w)) = (r, snd (Get (Some (length (spans w))) url (get_env env)
           (snd (tracer_Start c0 ''request.cycle''
              [(''service.name'', AString (serviceName fl)),
               (''request.target_url'', AString url),
               (''request.interval_ms'', AInt (interval_ms fl)),
               (''request.count'', AInt rc)] w))))"
proof -
  have "fst (Get (Some (length (spans w))) url (get_env env)
           (snd (tracer_Start c0 ''request.cycle''
              [(''service.name'', AString (serviceName fl)),
               (''request.target_url'', AString url),
               (''request.interval_ms'', AInt (interval_ms fl)),
               (''request.count'', AInt rc)] w))) = r"
    using assms Get_result [of "Some (length (spans w))" url "get_env env" "(snd (tracer_Start c0 ''request.cycle''
              [(''service.name'', AString (serviceName fl)),
               (''request.target_url'', AString url),
               (''request.interval_ms'', AInt (interval_ms fl)),
               (''request.count'', AInt rc)] w))" c' url' w']
    by simp
  then show ?thesis
    by (simp add: prod_eq_iff)
qed

lemma makeRequest_failed:
  assumes "fst (Get c' url' (get_env env) w') = Inl e"
  shows "spans (makeRequest fl c0 url rc env w) ! length (spans w) =
           \<lparr>span_name = ''request.cycle'', span_parent = c0, span_attrs = [(''service.name'', AString (serviceName fl)),
               (''request.target_url'', AString url),
               (''request.interval_ms'', AInt (interval_ms fl)),
               (''request.count'', AInt rc)],
            span_code = Error, span_description = Error_msg e, span_errors = [e],
            span_ended = True\<rparr>"
    and "log_level (last (logs (makeRequest fl c0 url rc env w))) = ErrorLevel"
    and "log_msg (last (logs (makeRequest fl c0 url rc env w))) = ''Request failed''"
proof -
  note g = Get_in_makeRequest [OF assms, where w = w and url = url and fl = fl and ?c0.0 = c0 and rc = rc]
  note eq = makeRequest_Get_error [OF g]
  note root = root_after_Get [OF g]
  show "spans (makeRequest fl c0 url rc env w) ! length (spans w) =
           \<lparr>span_name = ''request.cycle'', span_parent = c0, span_attrs = [(''service.name'', AString (serviceName fl)),
               (''request.target_url'', AString url),
               (''request.interval_ms'', AInt (interval_ms fl)),
               (''request.count'', AInt rc)],
            span_code = Error, span_description = Error_msg e, span_errors = [e],
            span_ended = True\<rparr>"
    using root by (simp add: eq same_span)
  show "log_level (last (logs (makeRequest fl c0 url rc env w))) = ErrorLevel"
    by (simp add: eq)
  show "log_msg (last (logs (makeRequest fl c0 url rc env w))) = ''Request failed''"
    by (simp add: eq)
qed

lemma makeRequest_unread:
  assumes "fst (Get c' url' (get_env env) w') = Inr resp" and "Body resp = Inl e"
  shows "spans (makeRequest fl c0 url rc env w) ! length (spans w) =
           \<lparr>span_name = ''request.cycle'', span_parent = c0, span_attrs = [(''service.name'', AString (serviceName fl)),
               (''request.target_url'', AString url),
               (''request.interval_ms'', AInt (interval_ms fl)),
               (''request.count'', AInt rc)],
            span_code = Error, span_description = Error_msg e, span_errors = [e],
            span_ended = True\<rparr>"
    and "log_level (last (logs (makeRequest fl c0 url rc env w))) = ErrorLevel"
    and "log_msg (last (logs (makeRequest fl c0 url rc env w))) = ''Failed to read response body''"
proof -
  note g = Get_in_makeRequest [OF assms(1), where w = w and url = url and fl = fl and ?c0.0 = c0 and rc = rc]
  note eq = makeRequest_read_error [OF g assms(2)]
  note root = root_after_Get [OF g]
  show "spans (makeRequest fl c0 url rc env w) ! length (spans w) =
           \<lparr>span_name = ''request.cycle'', span_parent = c0, span_attrs = [(''service.name'', AString (serviceName fl)),
               (''request.target_url'', AString url),
               (''request.interval_ms'', AInt (interval_ms fl)),
               (''request.count'', AInt rc)],
            span_code = Error, span_description = Error_msg e, span_errors = [e],
            span_ended = True\<rparr>"
    using root by (simp add: eq same_span)
  show "log_level (last (logs (makeRequest fl c0 url rc env w))) = ErrorLevel"
    by (simp add: eq)
  show "log_msg (last (logs (makeRequest fl c0 url rc env w))) = ''Failed to read response body''"
    by (simp add: eq)
qed

lemma makeRequest_status_error:
  assumes "fst (Get c' url' (get_env env) w') = Inr resp" and "Body resp = Inr bytes"
    and "400 \<le> StatusCode resp"
  shows "spans (makeRequest fl c0 url rc env w) ! length (spans w) =
           \<lparr>span_name = ''request.cycle'', span_parent = c0,
            span_attrs = [(''service.name'', AString (serviceName fl)),
               (''request.target_url'', AString url),
               (''request.interval_ms'', AInt (interval_ms fl)),
               (''request.count'', AInt rc)] @
              [(''request.cycle.duration_ms'', AInt (duration_ms env)),
               (''request.success'', ABool False),
               (''http.status_code'', AInt (StatusCode resp)),
               (''response.size'', AInt (int (length bytes))),
               (''request.error'', AString (''HTTP '' @ fmt_d (StatusCode resp)))],
            span_code = Error, span_description = ''HTTP '' @ fmt_d (StatusCode resp),
            span_errors = [], span_ended = True\<rparr>"
    and "log_level (last (logs (makeRequest fl c0 url rc env w))) = WarnLevel"
    and "log_msg (last (logs (makeRequest fl c0 url rc env w))) =
           ''HTTP request returned error status''"
proof -
  note g = Get_in_makeRequest [OF assms(1), where w = w and url = url and fl = fl and ?c0.0 = c0 and rc = rc]
  from makeRequest_error_status [OF g assms(2,3)] obtain kvs where eq:
    "makeRequest fl c0 url rc env w =
     span_End (length (spans w))
       (zap_log WarnLevel ''HTTP request returned error status'' kvs
          (SetAttributes (length (spans w))
             [(''request.error'', AString (''HTTP '' @ fmt_d (StatusCode resp)))]
             (SetStatus (length (spans w)) Error (''HTTP '' @ fmt_d (StatusCode resp))
                (SetAttributes (length (spans w))
                   [(''request.cycle.duration_ms'', AInt (duration_ms env)),
                    (''request.success'', ABool (StatusCode resp < 400)),
                    (''http.status_code'', AInt (StatusCode resp)),
                    (''response.size'', AInt (int (length bytes)))] (snd (Get (Some (length (spans w))) url (get_env env)
           (snd (tracer_Start c0 ''request.cycle''
              [(''service.name'', AString (serviceName fl)),
               (''request.target_url'', AString url),
               (''request.interval_ms'', AInt (interval_ms fl)),
               (''request.count'', AInt rc)] w))))))))" ..
  note root = root_after_Get [OF g]
  show "spans (makeRequest fl c0 url rc env w) ! length (spans w) =
           \<lparr>span_name = ''request.cycle'', span_parent = c0,
            span_attrs = [(''service.name'', AString (serviceName fl)),
               (''request.target_url'', AString url),
               (''request.interval_ms'', AInt (interval_ms fl)),
               (''request.count'', AInt rc)] @
              [(''request.cycle.duration_ms'', AInt (duration_ms env)),
               (''request.success'', ABool False),
               (''http.status_code'', AInt (StatusCode resp)),
               (''response.size'', AInt (int (length bytes))),
               (''request.error'', AString (''HTTP '' @ fmt_d (StatusCode resp)))],
            span_code = Error, span_description = ''HTTP '' @ fmt_d (StatusCode resp),
            span_errors = [], span_ended = True\<rparr>"
    using root assms(3) by (simp add: eq same_span)
  show "log_level (last (logs (makeRequest fl c0 url rc env w))) = WarnLevel"
    by (simp add: eq)
  show "log_msg (last (logs (makeRequest fl c0 url rc env w))) =
           ''HTTP request returned error status''"
    by (simp add: eq)
qed

lemma makeRequest_status_ok:
  assumes "fst (Get c' url' (get_env env) w') = Inr resp" and "Body resp = Inr bytes"
    and "StatusCode resp < 400"
  shows "spans (makeRequest fl c0 url rc env w) ! length (spans w) =
           \<lparr>span_name = ''request.cycle'', span_parent = c0,
            span_attrs = [(''service.name'', AString (serviceName fl)),
               (''request.target_url'', AString url),
               (''request.interval_ms'', AInt (interval_ms fl)),
               (''request.count'', AInt rc)] @
              [(''request.cycle.duration_ms'', AInt (duration_ms env)),
               (''request.success'', ABool True),
               (''http.status_code'', AInt (StatusCode resp)),
               (''response.size'', AInt (int (length bytes)))],
            span_code = Ok, span_description = [], span_errors = [], span_ended = True\<rparr>"
    and "log_level (last (logs (makeRequest fl c0 url rc env w))) = InfoLevel"
    and "log_msg (last (logs (makeRequest fl c0 url rc env w))) =
           ''HTTP request completed successfully''"
proof -
  note g = Get_in_makeRequest [OF assms(1), where w = w and url = url and fl = fl and ?c0.0 = c0 and rc = rc]
  from makeRequest_ok_status [OF g assms(2,3)] obtain kvs where eq:
    "makeRequest fl c0 url rc env w =
     span_End (length (spans w))
       (zap_log InfoLevel ''HTTP request completed successfully'' kvs
          (SetStatus (length (spans w)) Ok []
             (SetAttributes (length (spans w))
                [(''request.cycle.duration_ms'', AInt (duration_ms env)),
                 (''request.success'', ABool (StatusCode resp < 400)),
                 (''http.status_code'', AInt (StatusCode resp)),
                 (''response.size'', AInt (int (length bytes)))] (snd (Get (Some (length (spans w))) url (get_env env)
           (snd (tracer_Start c0 ''request.cycle''
              [(''service.name'', AString (serviceName fl)),
               (''request.target_url'', AString url),
               (''request.interval_ms'', AInt (interval_ms fl)),
               (''request.count'', AInt rc)] w)))))))" ..
  note root = root_after_Get [OF g]
  show "spans (makeRequest fl c0 url rc env w) ! length (spans w) =
           \<lparr>span_name = ''request.cycle'', span_parent = c0,
            span_attrs = [(''service.name'', AString (serviceName fl)),
               (''request.target_url'', AString url),
               (''request.interval_ms'', AInt (interval_ms fl)),
               (''request.count'', AInt rc)] @
              [(''request.cycle.duration_ms'', AInt (duration_ms env)),
               (''request.success'', ABool True),
               (''http.status_code'', AInt (StatusCode resp)),
               (''response.size'', AInt (int (length bytes)))],
            span_code = Ok, span_description = [], span_errors = [], span_ended = True\<rparr>"
    using root assms(3) by (simp add: eq same_span)
  show "log_level (last (logs (makeRequest fl c0 url rc env w))) = InfoLevel"
    by (simp add: eq)
  show "log_msg (last (logs (makeRequest fl c0 url rc env w))) =
           ''HTTP request completed successfully''"
    by (simp add: eq)
qed

lemma Get_calls_Trip:
  assumes "NewRequest env = Inr u" and "Do env = Trip h"
  shows "calls_made (snd (Get c url env w)) =
           calls_made w @
             [Started (length (spans w)) ''http.get'' c,
              Started (length (spans w) + 1) ''http.transport'' (Some (length (spans w))),
              Started (length (spans w) + 2) ''dns.resolve'' (Some (length (spans w) + 1)),
              Ended (length (spans w) + 2),
              Started (length (spans w) + 3) ''tcp.connect'' (Some (length (spans w) + 1)),
              Ended (length (spans w) + 3),
              Ended (length (spans w) + 1),
              Ended (length (spans w))]"
proof (cases rule: Get_cases [where env = env and w = w and c = c and url = url])
  case (NewRequest_error e)
  with assms show ?thesis by simp
next
  case (Do_error u' e w2)
  with assms have "w2 = snd (RoundTrip \<lparr>Method = ''GET'', Request_URL = u, Context = Some (length (spans w))\<rparr> h
           (snd (tracer_Start c ''http.get''
              [(''http.method'', AString ''GET''), (''http.url'', AString url)] w)))"
    by (simp add: client_Do_Trip)
  then show ?thesis
    by (simp add: Get_Do_error [OF Do_error] RoundTrip_calls_made)
next
  case (Do_response u' resp w2)
  with assms have "w2 = snd (RoundTrip \<lparr>Method = ''GET'', Request_URL = u, Context = Some (length (spans w))\<rparr> h
           (snd (tracer_Start c ''http.get''
              [(''http.method'', AString ''GET''), (''http.url'', AString url)] w)))"
    by (simp add: client_Do_Trip)
  then show ?thesis
    by (simp add: Get_Do_response [OF Do_response] RoundTrip_calls_made)
qed

lemma makeRequest_calls:
  "calls_made (makeRequest fl c0 url rc env w) =
     calls_made (snd (Get (Some (length (spans w))) url (get_env env)
           (snd (tracer_Start c0 ''request.cycle''
              [(''service.name'', AString (serviceName fl)),
               (''request.target_url'', AString url),
               (''request.interval_ms'', AInt (interval_ms fl)),
               (''request.count'', AInt rc)] w)))) @ [Ended (length (spans w))]"
proof (cases rule: makeRequest_cases [where fl = fl and env = env and w = w and ?c0.0 = c0 and url = url and rc = rc])
  case (Get_error e w2)
  then show ?thesis by (simp add: makeRequest_Get_error [OF Get_error])
next
  case (read_error resp e w2)
  then show ?thesis by (simp add: makeRequest_read_error [OF read_error])
next
  case (error_status resp bytes w2)
  from makeRequest_error_status [OF this] error_status(1) show ?thesis by auto
next
  case (ok_status resp bytes w2)
  from makeRequest_ok_status [OF this] ok_status(1) show ?thesis by auto
qed

lemma makeRequest_calls_Trip:
  assumes "NewRequest (get_env env) = Inr u" and "Do (get_env env) = Trip h"
  shows "calls_made (makeRequest fl c0 url rc env w) =
           calls_made w @
             [Started (length (spans w)) ''request.cycle'' c0,
              Started (length (spans w) + 1) ''http.get'' (Some (length (spans w))),
              Started (length (spans w) + 2) ''http.transport'' (Some (length (spans w) + 1)),
              Started (length (spans w) + 3) ''dns.resolve'' (Some (length (spans w) + 2)),
              Ended (length (spans w) + 3),
              Started (length (spans w) + 4) ''tcp.connect'' (Some (length (spans w) + 2)),
              Ended (length (spans w) + 4),
              Ended (length (spans w) + 2),
              Ended (length (spans w) + 1),
              Ended (length (spans w))]"
  by (simp add: makeRequest_calls Get_calls_Trip [OF assms])

lemma WrapError_neq: "WrapError p e \<noteq> e"
  by (induction e) auto

lemma Get_error_wrapped:
  assumes "fst (Get c url env w) = Inl e"
  shows "case NewRequest env of
           Inl e0 \<Rightarrow> e = WrapError ''failed to create request: '' e0
         | Inr u \<Rightarrow>
             (\<exists>e1. (\<forall>c' w'. fst (client_Do \<lparr>Method = ''GET'', Request_URL = u, Context = c'\<rparr> (Do env) w') = Inl e1)
                   \<and> e = WrapError ''failed to make request: '' e1)"
proof (cases rule: Get_cases [where env = env and w = w and c = c and url = url])
  case (NewRequest_error e0)
  with assms show ?thesis by (simp add: Get_NewRequest_error)
next
  case (Do_error u e1 w2)
  have "fst (client_Do \<lparr>Method = ''GET'', Request_URL = u, Context = c'\<rparr> (Do env) w') = Inl e1" for c' w'
    using client_Do_result [of "\<lparr>Method = ''GET'', Request_URL = u, Context = c'\<rparr>"
        "\<lparr>Method = ''GET'', Request_URL = u, Context = Some (length (spans w))\<rparr>" "Do env" w'
        "snd (tracer_Start c ''http.get''
              [(''http.method'', AString ''GET''), (''http.url'', AString url)] w)"]
      Do_error(2)
    by simp
  moreover have "e = WrapError ''failed to make request: '' e1"
    using assms by (simp add: Get_Do_error [OF Do_error])
  ultimately show ?thesis
    using Do_error(1) by auto
next
  case (Do_response u resp w2)
  with assms show ?thesis by (simp add: Get_Do_response [OF Do_response])
qed

lemma Get_returns_Trip:
  assumes "NewRequest env = Inr u" and "Do env = Trip h"
  shows "fst (Get c url env w) =
           (case base_RoundTrip h of
              Inl e \<Rightarrow> Inl (WrapError ''failed to make request: '' (UrlError ''Get'' (URL_String u) e))
            | Inr resp \<Rightarrow> Inr resp)"
proof (cases rule: Get_cases [where env = env and w = w and c = c and url = url])
  case (NewRequest_error e)
  with assms show ?thesis by simp
next
  case (Do_error u' e w2)
  with assms show ?thesis
    by (auto simp: Get_Do_error [OF Do_error] client_Do_Trip uerr_def split: sum.splits)
next
  case (Do_response u' resp w2)
  with assms show ?thesis
    by (auto simp: Get_Do_response [OF Do_response] client_Do_Trip uerr_def split: sum.splits)
qed

lemma request_loop_ready:
  "ready (healthServer (request_loop fl cs s)) = ready (healthServer s)"
proof (induction cs arbitrary: s)
  case Nil
  then show ?case by simp
next
  case (Cons c cs)
  then show ?case by (cases c) simp_all
qed

lemma main_start_proj [simp]:
  "spans (world main_start) = []"
  "calls_made (world main_start) = []"
  "healthServer main_start = SetReady True (New 8080)"
  "requestCount main_start = 0"
  "returned main_start = False"
  by (simp_all add: main_start_def)

lemma Get_levels_Trip:
  assumes "NewRequest env = Inr u" and "Do env = Trip h"
  shows "map log_level (logs (snd (Get c url env w))) =
           map log_level (logs w) @
             [case base_RoundTrip h of
                Inl e \<Rightarrow> ErrorLevel
              | Inr resp \<Rightarrow> if 400 \<le> StatusCode resp then WarnLevel else InfoLevel]"
proof (cases rule: Get_cases [where env = env and w = w and c = c and url = url])
  case (NewRequest_error e)
  with assms show ?thesis by simp
next
  case (Do_error u' e w2)
  with assms have "w2 = snd (RoundTrip \<lparr>Method = ''GET'', Request_URL = u, Context = Some (length (spans w))\<rparr> h
           (snd (tracer_Start c ''http.get''
              [(''http.method'', AString ''GET''), (''http.url'', AString url)] w)))"
    and "\<exists>e'. base_RoundTrip h = Inl e'"
    by (auto simp: client_Do_Trip split: sum.splits)
  then show ?thesis
    by (auto simp: Get_Do_error [OF Do_error] RoundTrip_logs)
next
  case (Do_response u' resp w2)
  with assms have "w2 = snd (RoundTrip \<lparr>Method = ''GET'', Request_URL = u, Context = Some (length (spans w))\<rparr> h
           (snd (tracer_Start c ''http.get''
              [(''http.method'', AString ''GET''), (''http.url'', AString url)] w)))"
    and "base_RoundTrip h = Inr resp"
    by (auto simp: client_Do_Trip split: sum.splits)
  then show ?thesis
    by (simp add: Get_Do_response [OF Do_response] RoundTrip_logs)
qed

lemma makeRequest_levels:
  "map log_level (logs (makeRequest fl c0 url rc env w)) =
     map log_level (logs (snd (Get (Some (length (spans w))) url (get_env env)
           (snd (tracer_Start c0 ''request.cycle''
              [(''service.name'', AString (serviceName fl)),
               (''request.target_url'', AString url),
               (''request.interval_ms'', AInt (interval_ms fl)),
               (''request.count'', AInt rc)] w))))) @
       [log_level (last (logs (makeRequest fl c0 url rc env w)))]"
proof (cases rule: makeRequest_cases [where fl = fl and env = env and w = w and ?c0.0 = c0 and url = url and rc = rc])
  case (Get_error e w2)
  then show ?thesis by (simp add: makeRequest_Get_error [OF Get_error])
next
  case (read_error resp e w2)
  then show ?thesis by (simp add: makeRequest_read_error [OF read_error])
next
  case (error_status resp bytes w2)
  from makeRequest_error_status [OF this] error_status(1) show ?thesis by auto
next
  case (ok_status resp bytes w2)
  from makeRequest_ok_status [OF this] ok_status(1) show ?thesis by auto
qed

lemma Get_a_probe:
  "fst (Get c url (get_env (a_probe dns base)) w) =
     (case base of
        Inl e \<Rightarrow> Inl (WrapError ''failed to make request: ''
                        (UrlError ''Get'' ''https://httpbin.org/get'' e))
      | Inr resp \<Rightarrow> Inr resp)"
  by (simp add: Get_returns_Trip [where u = default_URL and h = "a_trip dns base"]
        a_probe_def a_get_def a_trip_def default_URL_def split: sum.splits)

lemma fmt_d_500: "fmt_d 500 = ''500''"
  by (simp add: fmt_d_def digit_def)

section \<open>The Status State\<close>

text \<open>
  C1, as the code has it. The request counter is an \<^verbatim>\<open>int64\<close> that
  \<^verbatim>\<open>atomic.AddInt64\<close> increments, so it wraps: after \<open>2 ^ 63\<close> ticks it reads
  \<open>- 2 ^ 63\<close>, not \<open>2 ^ 63\<close>.
\<close>

theorem request_counter_wraps_counterexample:
  "ticks_done (replicate (2 ^ 63) (TickerC (a_probe addresses (Inr response_200)))) = 2 ^ 63
   \<and> sint (requests (healthServer
        (request_loop default_flags
           (replicate (2 ^ 63) (TickerC (a_probe addresses (Inr response_200)))) main_start)))
       = - (2 ^ 63)
   \<and> sint (requests (healthServer
        (request_loop default_flags
           (replicate (2 ^ 63) (TickerC (a_probe addresses (Inr response_200)))) main_start)))
       \<noteq> 2 ^ 63"
  by (simp add: request_loop_requests ticks_done_replicate New_def)

text \<open>
  C1 (amended). After \<open>N < 2 ^ 63\<close> completed ticks of the loop, whatever each probe
  met, the request counter of the Status State reads exactly \<open>N\<close>. Every tick runs the
  probe and then increments the counter by exactly 1. The increments of two execution
  units are never lost: in whatever order their atomic calls take effect (any
  interleaving \<open>zs\<close> of the units' call sequences \<open>xs\<close> and \<open>ys\<close>), the counter has grown
  by the number of increments made. An atomic call is one indivisible step here, which
  is what \<^verbatim>\<open>sync/atomic\<close> provides.
\<close>

theorem request_counter_counts_ticks:
  "(ticks_done cs < 2 ^ 63 \<longrightarrow>
      sint (requests (healthServer (request_loop fl cs main_start))) = int (ticks_done cs))
   \<and> world (tick fl env s) =
       makeRequest fl None (targetURL fl) (sint (requestCount s + 1)) env (world s)
   \<and> requests (healthServer (tick fl env s)) = requests (healthServer s) + 1
   \<and> (zs \<in> shuffles xs ys \<longrightarrow>
       requests (calls zs h) =
         requests h + word_of_nat (count_list xs CallIncrementRequests
                                   + count_list ys CallIncrementRequests))"
proof -
  have "requests (healthServer (request_loop fl cs main_start)) = word_of_nat (ticks_done cs)"
    by (simp add: request_loop_requests New_def)
  then have "ticks_done cs < 2 ^ 63 \<longrightarrow>
      sint (requests (healthServer (request_loop fl cs main_start))) = int (ticks_done cs)"
    by (simp add: sint_small)
  moreover have "zs \<in> shuffles xs ys \<longrightarrow>
       requests (calls zs h) =
         requests h + word_of_nat (count_list xs CallIncrementRequests
                                   + count_list ys CallIncrementRequests)"
    by (simp add: calls_def requests_fold_call count_list_shuffles)
  ultimately show ?thesis
    by (simp add: IncrementRequests_def)
qed

theorem request_counter_counts_ticks_witness:
  "ticks_done [TickerC (a_probe addresses (Inr response_200)),
               TickerC (a_probe addresses (Inr response_500)),
               TickerC (a_probe addresses (Inl connection_refused))] < 2 ^ 63
   \<and> sint (requests (healthServer
        (request_loop default_flags
           [TickerC (a_probe addresses (Inr response_200)),
            TickerC (a_probe addresses (Inr response_500)),
            TickerC (a_probe addresses (Inl connection_refused))] main_start))) = 3
   \<and> [CallIncrementRequests, CallSetReady True, CallIncrementRequests]
        \<in> shuffles [CallIncrementRequests, CallIncrementRequests] [CallSetReady True]
   \<and> requests (calls [CallIncrementRequests, CallSetReady True, CallIncrementRequests] (New 8080)) = 2"
  using request_counter_counts_ticks
          [of "[TickerC (a_probe addresses (Inr response_200)),
                TickerC (a_probe addresses (Inr response_500)),
                TickerC (a_probe addresses (Inl connection_refused))]"
              default_flags
              "a_probe addresses (Inr response_200)" main_start
              "[CallIncrementRequests, CallSetReady True, CallIncrementRequests]"
              "[CallIncrementRequests, CallIncrementRequests]" "[CallSetReady True]" "New 8080"]
  by (simp add: New_def)

text \<open>
  C2. The ready endpoint answers 200 with status \<open>ready\<close> when the most recent
  \<open>SetReady\<close> on the server was \<open>SetReady True\<close>, and 503 with status \<open>not_ready\<close> when
  \<open>SetReady\<close> was never called or its most recent call was \<open>SetReady False\<close>.
\<close>

theorem ready_endpoint_gating:
  \<open>(lastSetReady ms = Some True \<longrightarrow>
      readyHandler now (calls ms (New port)) =
        \<lparr>header = [(''Content-Type'', ''application/json'')], status = 200,
         body = ''{"status":"ready","timestamp":"'' @ now @ ''"}''\<rparr>)
   \<and> (lastSetReady ms \<noteq> Some True \<longrightarrow>
      readyHandler now (calls ms (New port)) =
        \<lparr>header = [(''Content-Type'', ''application/json'')], status = 503,
         body = ''{"status":"not_ready","timestamp":"'' @ now @ ''"}''\<rparr>)\<close>
  by (simp add: readyHandler_def ready_calls_New StatusOK_def StatusServiceUnavailable_def)

theorem ready_endpoint_gating_witness:
  \<open>lastSetReady [CallSetReady False, CallIncrementRequests, CallSetReady True] = Some True
   \<and> readyHandler ''2025-01-01T00:00:00Z''
         (calls [CallSetReady False, CallIncrementRequests, CallSetReady True] (New 8080)) =
        \<lparr>header = [(''Content-Type'', ''application/json'')], status = 200,
         body = ''{"status":"ready","timestamp":"2025-01-01T00:00:00Z"}''\<rparr>
   \<and> lastSetReady [CallSetReady True, CallSetReady False] \<noteq> Some True
   \<and> readyHandler ''2025-01-01T00:00:00Z'' (calls [CallSetReady True, CallSetReady False] (New 8080)) =
        \<lparr>header = [(''Content-Type'', ''application/json'')], status = 503,
         body = ''{"status":"not_ready","timestamp":"2025-01-01T00:00:00Z"}''\<rparr>
   \<and> lastSetReady [] \<noteq> Some True
   \<and> readyHandler ''2025-01-01T00:00:00Z'' (calls [] (New 8080)) =
        \<lparr>header = [(''Content-Type'', ''application/json'')], status = 503,
         body = ''{"status":"not_ready","timestamp":"2025-01-01T00:00:00Z"}''\<rparr>\<close>
  using ready_endpoint_gating
          [of "[CallSetReady False, CallIncrementRequests, CallSetReady True]"
              "''2025-01-01T00:00:00Z''" 8080]
        ready_endpoint_gating
          [of "[CallSetReady True, CallSetReady False]" "''2025-01-01T00:00:00Z''" 8080]
        ready_endpoint_gating [of "[]" "''2025-01-01T00:00:00Z''" 8080]
  by simp

text \<open>
  C8. The metrics endpoint answers 200 with content type \<open>text/plain\<close> and exactly the
  three lines of the dump, with the current value of the counter and the readiness flag
  as 0 or 1; after \<open>SetReady True\<close> and two probes of the loop the body reads
  \<open>http_requests_total 2\<close> and \<open>service_ready 1\<close>.
\<close>

theorem metrics_endpoint:
  "metricsHandler (calls ms (New port)) =
     \<lparr>header = [(''Content-Type'', ''text/plain'')], status = 200,
      body = ''# HTTP Client Metrics\<newline>http_requests_total ''
             @ fmt_d (sint (word_of_nat (count_list ms CallIncrementRequests) :: 64 word))
             @ ''\<newline>service_ready '' @ (if lastSetReady ms = Some True then ''1'' else ''0'')
             @ ''\<newline>''\<rparr>
   \<and> metricsHandler (healthServer (request_loop fl [TickerC env1, TickerC env2] main_start)) =
     \<lparr>header = [(''Content-Type'', ''text/plain'')], status = 200,
      body = ''# HTTP Client Metrics\<newline>http_requests_total 2\<newline>service_ready 1\<newline>''\<rparr>"
proof -
  have "requests (healthServer (request_loop fl [TickerC env1, TickerC env2] main_start)) = 2"
    by (simp only: request_loop_requests) (simp add: New_def)
  moreover have "ready (healthServer (request_loop fl [TickerC env1, TickerC env2] main_start)) = 1"
    by (simp only: request_loop_ready) (simp add: SetReady_def)
  ultimately have
    "metricsHandler (healthServer (request_loop fl [TickerC env1, TickerC env2] main_start)) =
     \<lparr>header = [(''Content-Type'', ''text/plain'')], status = 200,
      body = ''# HTTP Client Metrics\<newline>http_requests_total 2\<newline>service_ready 1\<newline>''\<rparr>"
    by (simp add: metricsHandler_def StatusOK_def fmt_d_def digit_def)
  then show ?thesis
    by (simp add: metricsHandler_def ready_calls_New requests_calls_New StatusOK_def fmt_d_def)
qed

theorem metrics_endpoint_witness:
  "metricsHandler (calls [CallSetReady True, CallIncrementRequests, CallIncrementRequests] (New 8080)) =
     \<lparr>header = [(''Content-Type'', ''text/plain'')], status = 200,
      body = ''# HTTP Client Metrics\<newline>http_requests_total 2\<newline>service_ready 1\<newline>''\<rparr>
   \<and> metricsHandler (calls [CallIncrementRequests] (New 8080)) =
     \<lparr>header = [(''Content-Type'', ''text/plain'')], status = 200,
      body = ''# HTTP Client Metrics\<newline>http_requests_total 1\<newline>service_ready 0\<newline>''\<rparr>"
  using metrics_endpoint
          [of "[CallSetReady True, CallIncrementRequests, CallIncrementRequests]" 8080]
        metrics_endpoint [of "[CallIncrementRequests]" 8080]
  by (simp add: fmt_d_def digit_def)

text \<open>
  C9. \<open>SetReady\<close> is idempotent: calling it twice in a row with the same argument leaves
  the Status State as one call does, and it never changes the request counter.
\<close>

theorem SetReady_idempotent:
  "SetReady r (SetReady r s) = SetReady r s
   \<and> ready (SetReady r (SetReady r s)) = ready (SetReady r s)
   \<and> requests (SetReady r (SetReady r s)) = requests (SetReady r s)
   \<and> requests (SetReady r s) = requests s"
  by (simp add: SetReady_def)

theorem SetReady_idempotent_witness:
  "SetReady True (SetReady True (IncrementRequests (New 8080)))
     = SetReady True (IncrementRequests (New 8080))
   \<and> SetReady False (SetReady False (IncrementRequests (New 8080)))
     = SetReady False (IncrementRequests (New 8080))
   \<and> requests (SetReady True (SetReady True (IncrementRequests (New 8080)))) = 1"
  using SetReady_idempotent [of True "IncrementRequests (New 8080)"]
        SetReady_idempotent [of False "IncrementRequests (New 8080)"]
  by (simp add: New_def IncrementRequests_def)

section \<open>The Instrumented Transport\<close>

text \<open>
  C3. When the wrapped round trip succeeds, \<open>RoundTrip\<close> returns its response and no
  error, whatever the status. For a status of 400 or more the \<open>http.transport\<close> span is
  set to Error with the description \<open>HTTP <status>\<close>; for a status below 400 the
  \<open>tcp.connect\<close> span and the \<open>http.transport\<close> span are both Ok.
\<close>

theorem RoundTrip_status_is_signal_only:
  "base_RoundTrip env = Inr resp \<Longrightarrow>
   fst (RoundTrip req env w) = Inr resp
   \<and> span_name (spans (snd (RoundTrip req env w)) ! length (spans w)) = ''http.transport''
   \<and> span_name (spans (snd (RoundTrip req env w)) ! (length (spans w) + 2)) = ''tcp.connect''
   \<and> (400 \<le> StatusCode resp \<longrightarrow>
        span_code (spans (snd (RoundTrip req env w)) ! length (spans w)) = Error
        \<and> span_description (spans (snd (RoundTrip req env w)) ! length (spans w)) =
            ''HTTP '' @ fmt_d (StatusCode resp))
   \<and> (StatusCode resp < 400 \<longrightarrow>
        span_code (spans (snd (RoundTrip req env w)) ! (length (spans w) + 2)) = Ok
        \<and> span_code (spans (snd (RoundTrip req env w)) ! length (spans w)) = Ok)"
  using RoundTrip_response_transport [of env resp req w]
    RoundTrip_response_connect [of env resp req w]
  by (simp add: RoundTrip_result)
theorem RoundTrip_status_is_signal_only_witness:
  "base_RoundTrip (a_trip addresses (Inr response_500)) = Inr response_500
   \<and> 400 \<le> StatusCode response_500
   \<and> fst (RoundTrip a_request (a_trip addresses (Inr response_500)) no_world) = Inr response_500
   \<and> span_code (spans (snd (RoundTrip a_request (a_trip addresses (Inr response_500)) no_world)) ! 0)
       = Error
   \<and> span_description
        (spans (snd (RoundTrip a_request (a_trip addresses (Inr response_500)) no_world)) ! 0)
       = ''HTTP 500''
   \<and> base_RoundTrip (a_trip addresses (Inr response_200)) = Inr response_200
   \<and> StatusCode response_200 < 400
   \<and> fst (RoundTrip a_request (a_trip addresses (Inr response_200)) no_world) = Inr response_200
   \<and> span_code (spans (snd (RoundTrip a_request (a_trip addresses (Inr response_200)) no_world)) ! 0)
       = Ok
   \<and> span_code (spans (snd (RoundTrip a_request (a_trip addresses (Inr response_200)) no_world)) ! 2)
       = Ok"
proof -
  have h5: "base_RoundTrip (a_trip addresses (Inr response_500)) = Inr response_500"
    by (simp add: a_trip_def)
  have h2: "base_RoundTrip (a_trip addresses (Inr response_200)) = Inr response_200"
    by (simp add: a_trip_def)
  have n: "length (spans no_world) = 0"
    by (simp add: no_world_def)
  show ?thesis
    using h5 h2
      RoundTrip_status_is_signal_only [OF h5, of a_request no_world]
      RoundTrip_status_is_signal_only [OF h2, of a_request no_world]
    by (simp add: n response_500_def response_200_def fmt_d_500 numeral_2_eq_2)
qed

text \<open>
  C4. When the wrapped round trip returns an error, the \<open>tcp.connect\<close> span and the
  \<open>http.transport\<close> span are both set to Error with that error recorded on each, and
  \<open>RoundTrip\<close> returns the very same error; it starts its three spans and no more, so
  the call is not repeated.
\<close>

theorem RoundTrip_propagates_error:
  "base_RoundTrip env = Inl e \<Longrightarrow>
   fst (RoundTrip req env w) = Inl e
   \<and> span_name (spans (snd (RoundTrip req env w)) ! length (spans w)) = ''http.transport''
   \<and> span_code (spans (snd (RoundTrip req env w)) ! length (spans w)) = Error
   \<and> span_errors (spans (snd (RoundTrip req env w)) ! length (spans w)) = [e]
   \<and> span_name (spans (snd (RoundTrip req env w)) ! (length (spans w) + 2)) = ''tcp.connect''
   \<and> span_code (spans (snd (RoundTrip req env w)) ! (length (spans w) + 2)) = Error
   \<and> span_errors (spans (snd (RoundTrip req env w)) ! (length (spans w) + 2)) = [e]
   \<and> length (spans (snd (RoundTrip req env w))) = length (spans w) + 3"
  using RoundTrip_error_transport [of env e req w] RoundTrip_error_connect [of env e req w]
  by (simp add: RoundTrip_result RoundTrip_length)

theorem RoundTrip_propagates_error_witness:
  "base_RoundTrip (a_trip addresses (Inl connection_refused)) = Inl connection_refused
   \<and> fst (RoundTrip a_request (a_trip addresses (Inl connection_refused)) no_world)
       = Inl connection_refused
   \<and> span_code
        (spans (snd (RoundTrip a_request (a_trip addresses (Inl connection_refused)) no_world)) ! 0)
       = Error
   \<and> span_errors
        (spans (snd (RoundTrip a_request (a_trip addresses (Inl connection_refused)) no_world)) ! 0)
       = [connection_refused]
   \<and> span_code
        (spans (snd (RoundTrip a_request (a_trip addresses (Inl connection_refused)) no_world)) ! 2)
       = Error
   \<and> span_errors
        (spans (snd (RoundTrip a_request (a_trip addresses (Inl connection_refused)) no_world)) ! 2)
       = [connection_refused]"
proof -
  have h: "base_RoundTrip (a_trip addresses (Inl connection_refused)) = Inl connection_refused"
    by (simp add: a_trip_def)
  have n: "length (spans no_world) = 0"
    by (simp add: no_world_def)
  show ?thesis
    using h RoundTrip_propagates_error [OF h, of a_request no_world]
    by (simp add: n numeral_2_eq_2)
qed

text \<open>
  C7. When the diagnostic DNS lookup fails, the \<open>dns.resolve\<close> span records the error,
  is set to Error and is ended; after that the \<open>tcp.connect\<close> span is started all the
  same and the wrapped round trip is made, whose result is what \<open>RoundTrip\<close> returns: if
  it is a response, \<open>RoundTrip\<close> returns the response and no error.
\<close>

theorem RoundTrip_survives_dns_failure:
  "LookupIP env = Inl e \<Longrightarrow>
   span_name (spans (snd (RoundTrip req env w)) ! (length (spans w) + 1)) = ''dns.resolve''
   \<and> span_errors (spans (snd (RoundTrip req env w)) ! (length (spans w) + 1)) = [e]
   \<and> span_code (spans (snd (RoundTrip req env w)) ! (length (spans w) + 1)) = Error
   \<and> span_ended (spans (snd (RoundTrip req env w)) ! (length (spans w) + 1))
   \<and> calls_made (snd (RoundTrip req env w)) =
       calls_made w @
         [Started (length (spans w)) ''http.transport'' (Context req),
          Started (length (spans w) + 1) ''dns.resolve'' (Some (length (spans w))),
          Ended (length (spans w) + 1),
          Started (length (spans w) + 2) ''tcp.connect'' (Some (length (spans w))),
          Ended (length (spans w) + 2),
          Ended (length (spans w))]
   \<and> fst (RoundTrip req env w) = base_RoundTrip env
   \<and> (base_RoundTrip env = Inr resp \<longrightarrow> fst (RoundTrip req env w) = Inr resp)"
  using RoundTrip_dns_error [of env e req w]
  by (simp add: RoundTrip_result RoundTrip_calls_made)

theorem RoundTrip_survives_dns_failure_witness:
  "LookupIP (a_trip (Inl no_such_host) (Inr response_200)) = Inl no_such_host
   \<and> base_RoundTrip (a_trip (Inl no_such_host) (Inr response_200)) = Inr response_200
   \<and> span_errors
        (spans (snd (RoundTrip a_request (a_trip (Inl no_such_host) (Inr response_200)) no_world)) ! 1)
       = [no_such_host]
   \<and> span_code
        (spans (snd (RoundTrip a_request (a_trip (Inl no_such_host) (Inr response_200)) no_world)) ! 1)
       = Error
   \<and> span_ended
        (spans (snd (RoundTrip a_request (a_trip (Inl no_such_host) (Inr response_200)) no_world)) ! 1)
   \<and> calls_made (snd (RoundTrip a_request (a_trip (Inl no_such_host) (Inr response_200)) no_world)) =
         [Started 0 ''http.transport'' None,
          Started 1 ''dns.resolve'' (Some 0),
          Ended 1,
          Started 2 ''tcp.connect'' (Some 0),
          Ended 2,
          Ended 0]
   \<and> fst (RoundTrip a_request (a_trip (Inl no_such_host) (Inr response_200)) no_world)
       = Inr response_200"
proof -
  have h: "LookupIP (a_trip (Inl no_such_host) (Inr response_200)) = Inl no_such_host"
    by (simp add: a_trip_def)
  have b: "base_RoundTrip (a_trip (Inl no_such_host) (Inr response_200)) = Inr response_200"
    by (simp add: a_trip_def)
  have n: "length (spans no_world) = 0" "calls_made no_world = []" "Context a_request = None"
    by (simp_all add: no_world_def a_request_def)
  show ?thesis
    using h b RoundTrip_survives_dns_failure [OF h, of a_request no_world response_200]
    by (simp add: n numeral_2_eq_2)
qed

section \<open>The Probe Client and the Probe Scheduler\<close>

text \<open>
  C5, as the code has it. After \<open>Get\<close> has returned a response, \<open>makeRequest\<close> reads the
  body; when that read fails it records the error on the root span, sets it to Error
  and logs at error severity, whatever the status. Here the response has status 200 and
  its body breaks off: the root span is Error, not Ok. Two records are logged in the
  tick: the client's, at info severity, when the response arrived, and the scheduler's,
  at error severity.
\<close>

theorem read_failure_counterexample:
  "fst (Get None (targetURL default_flags) (get_env (a_probe addresses (Inr response_200_cut)))
          no_world) = Inr response_200_cut
   \<and> StatusCode response_200_cut = 200
   \<and> span_name (spans (world (tick default_flags (a_probe addresses (Inr response_200_cut))
                                 main_start)) ! 0) = ''request.cycle''
   \<and> span_code (spans (world (tick default_flags (a_probe addresses (Inr response_200_cut))
                                 main_start)) ! 0) = Error
   \<and> span_code (spans (world (tick default_flags (a_probe addresses (Inr response_200_cut))
                                 main_start)) ! 0) \<noteq> Ok
   \<and> map log_level (logs (world (tick default_flags (a_probe addresses (Inr response_200_cut))
                                       main_start)))
       = map log_level (logs (world main_start)) @ [InfoLevel, ErrorLevel]"
proof -
  have g: "fst (Get None (targetURL default_flags)
                  (get_env (a_probe addresses (Inr response_200_cut))) no_world)
             = Inr response_200_cut"
    by (simp add: Get_a_probe)
  have b: "Body response_200_cut = Inl (ErrorString ''unexpected EOF'')"
    by (simp add: response_200_cut_def)
  have h: "NewRequest (get_env (a_probe addresses (Inr response_200_cut))) = Inr default_URL"
    "Do (get_env (a_probe addresses (Inr response_200_cut)))
       = Trip (a_trip addresses (Inr response_200_cut))"
    "base_RoundTrip (a_trip addresses (Inr response_200_cut)) = Inr response_200_cut"
    by (simp_all add: a_probe_def a_get_def a_trip_def)
  have sc: "StatusCode response_200_cut = 200"
    by (simp add: response_200_cut_def)
  have l: "map log_level (logs (world (tick default_flags (a_probe addresses (Inr response_200_cut))
                                       main_start)))
       = map log_level (logs (world main_start)) @ [InfoLevel, ErrorLevel]"
    using makeRequest_unread(2) [OF g b, of default_flags None "targetURL default_flags"
        "sint (requestCount main_start + 1)" "world main_start"]
    by (simp add: makeRequest_levels [of default_flags None] Get_levels_Trip [OF h(1,2)] h(3) sc)
  show ?thesis
    using g l makeRequest_unread [OF g b, of default_flags None "targetURL default_flags"
        "sint (requestCount main_start + 1)" "world main_start"]
    by (simp add: sc)
qed

text \<open>
  C5 (amended). For every tick, with the root span \<open>request.cycle\<close> being the span
  the tick starts first and the scheduler's record being the last one logged in the
  tick: when \<open>Get\<close> returns a response whose body is read without error, a status
  below 400 (such as 200) leaves the root span Ok and the record at info severity, and
  a status of 400 or more (such as 500) leaves the root span Error and the record at
  warn severity; when \<open>Get\<close> fails (a connection failure, say) or the body cannot be
  read, the root span is Error and the record at error severity. In
  every case the loop goes on with the next case of its \<open>select\<close>, has not returned
  because of the tick, and counts this tick and every later one.
\<close>

theorem probe_outcome_classification:
  "(fst (Get c' url' (get_env env) w') = Inr resp \<and> Body resp = Inr bytes
      \<and> StatusCode resp < 400 \<longrightarrow>
      span_name (spans (world (tick fl env s)) ! length (spans (world s))) = ''request.cycle''
      \<and> span_code (spans (world (tick fl env s)) ! length (spans (world s))) = Ok
      \<and> log_level (last (logs (world (tick fl env s)))) = InfoLevel)
   \<and> (fst (Get c' url' (get_env env) w') = Inr resp \<and> Body resp = Inr bytes
      \<and> 400 \<le> StatusCode resp \<longrightarrow>
      span_name (spans (world (tick fl env s)) ! length (spans (world s))) = ''request.cycle''
      \<and> span_code (spans (world (tick fl env s)) ! length (spans (world s))) = Error
      \<and> log_level (last (logs (world (tick fl env s)))) = WarnLevel)
   \<and> (fst (Get c' url' (get_env env) w') = Inl e \<longrightarrow>
      span_name (spans (world (tick fl env s)) ! length (spans (world s))) = ''request.cycle''
      \<and> span_code (spans (world (tick fl env s)) ! length (spans (world s))) = Error
      \<and> log_level (last (logs (world (tick fl env s)))) = ErrorLevel)
   \<and> (fst (Get c' url' (get_env env) w') = Inr resp \<and> Body resp = Inl e \<longrightarrow>
      span_name (spans (world (tick fl env s)) ! length (spans (world s))) = ''request.cycle''
      \<and> span_code (spans (world (tick fl env s)) ! length (spans (world s))) = Error
      \<and> log_level (last (logs (world (tick fl env s)))) = ErrorLevel)
   \<and> request_loop fl (TickerC env # cs) s = request_loop fl cs (tick fl env s)
   \<and> returned (tick fl env s) = returned s
   \<and> requests (healthServer (request_loop fl (TickerC env # cs) s)) =
       requests (healthServer s) + 1 + word_of_nat (ticks_done cs)"
proof -
  have ok: "fst (Get c' url' (get_env env) w') = Inr resp \<and> Body resp = Inr bytes
      \<and> StatusCode resp < 400 \<longrightarrow>
      span_name (spans (world (tick fl env s)) ! length (spans (world s))) = ''request.cycle''
      \<and> span_code (spans (world (tick fl env s)) ! length (spans (world s))) = Ok
      \<and> log_level (last (logs (world (tick fl env s)))) = InfoLevel"
  proof (intro impI, elim conjE)
    assume a: "fst (Get c' url' (get_env env) w') = Inr resp" "Body resp = Inr bytes" "StatusCode resp < 400"
    from makeRequest_status_ok [OF a, where fl = fl and ?c0.0 = None and url = "targetURL fl" and rc = "sint (requestCount s + 1)" and w = "world s"] show
      "span_name (spans (world (tick fl env s)) ! length (spans (world s))) = ''request.cycle''
       \<and> span_code (spans (world (tick fl env s)) ! length (spans (world s))) = Ok
       \<and> log_level (last (logs (world (tick fl env s)))) = InfoLevel"
      by simp
  qed
  have bad: "fst (Get c' url' (get_env env) w') = Inr resp \<and> Body resp = Inr bytes
      \<and> 400 \<le> StatusCode resp \<longrightarrow>
      span_name (spans (world (tick fl env s)) ! length (spans (world s))) = ''request.cycle''
      \<and> span_code (spans (world (tick fl env s)) ! length (spans (world s))) = Error
      \<and> log_level (last (logs (world (tick fl env s)))) = WarnLevel"
  proof (intro impI, elim conjE)
    assume a: "fst (Get c' url' (get_env env) w') = Inr resp" "Body resp = Inr bytes" "400 \<le> StatusCode resp"
    from makeRequest_status_error [OF a, where fl = fl and ?c0.0 = None and url = "targetURL fl" and rc = "sint (requestCount s + 1)" and w = "world s"] show
      "span_name (spans (world (tick fl env s)) ! length (spans (world s))) = ''request.cycle''
       \<and> span_code (spans (world (tick fl env s)) ! length (spans (world s))) = Error
       \<and> log_level (last (logs (world (tick fl env s)))) = WarnLevel"
      by simp
  qed
  have failed: "fst (Get c' url' (get_env env) w') = Inl e \<longrightarrow>
      span_name (spans (world (tick fl env s)) ! length (spans (world s))) = ''request.cycle''
      \<and> span_code (spans (world (tick fl env s)) ! length (spans (world s))) = Error
      \<and> log_level (last (logs (world (tick fl env s)))) = ErrorLevel"
  proof
    assume a: "fst (Get c' url' (get_env env) w') = Inl e"
    from makeRequest_failed [OF a, where fl = fl and ?c0.0 = None and url = "targetURL fl" and rc = "sint (requestCount s + 1)" and w = "world s"] show
      "span_name (spans (world (tick fl env s)) ! length (spans (world s))) = ''request.cycle''
       \<and> span_code (spans (world (tick fl env s)) ! length (spans (world s))) = Error
       \<and> log_level (last (logs (world (tick fl env s)))) = ErrorLevel"
      by simp
  qed
  have unread: "fst (Get c' url' (get_env env) w') = Inr resp \<and> Body resp = Inl e \<longrightarrow>
      span_name (spans (world (tick fl env s)) ! length (spans (world s))) = ''request.cycle''
      \<and> span_code (spans (world (tick fl env s)) ! length (spans (world s))) = Error
      \<and> log_level (last (logs (world (tick fl env s)))) = ErrorLevel"
  proof (intro impI, elim conjE)
    assume a: "fst (Get c' url' (get_env env) w') = Inr resp" "Body resp = Inl e"
    from makeRequest_unread [OF a, where fl = fl and ?c0.0 = None and url = "targetURL fl" and rc = "sint (requestCount s + 1)" and w = "world s"] show
      "span_name (spans (world (tick fl env s)) ! length (spans (world s))) = ''request.cycle''
       \<and> span_code (spans (world (tick fl env s)) ! length (spans (world s))) = Error
       \<and> log_level (last (logs (world (tick fl env s)))) = ErrorLevel"
      by simp
  qed
  have count: "requests (healthServer (request_loop fl (TickerC env # cs) s)) =
       requests (healthServer s) + 1 + word_of_nat (ticks_done cs)"
    by (simp only: request_loop_requests) simp
  from ok bad failed unread count show ?thesis
    by simp
qed
theorem probe_outcome_classification_witness:
  "fst (Get None (targetURL default_flags) (get_env (a_probe addresses (Inr response_200))) no_world) = Inr response_200
   \<and> Body response_200 = Inr ''test response'' \<and> StatusCode response_200 < 400
   \<and> span_code (spans (world (tick default_flags (a_probe addresses (Inr response_200)) main_start)) ! 0) = Ok
   \<and> log_level (last (logs (world (tick default_flags (a_probe addresses (Inr response_200)) main_start)))) = InfoLevel
   \<and> fst (Get None (targetURL default_flags) (get_env (a_probe addresses (Inr response_500))) no_world) = Inr response_500
   \<and> Body response_500 = Inr ''internal server error'' \<and> 400 \<le> StatusCode response_500
   \<and> span_code (spans (world (tick default_flags (a_probe addresses (Inr response_500)) main_start)) ! 0) = Error
   \<and> log_level (last (logs (world (tick default_flags (a_probe addresses (Inr response_500)) main_start)))) = WarnLevel
   \<and> fst (Get None (targetURL default_flags) (get_env (a_probe addresses (Inl connection_refused))) no_world) = Inl (WrapError ''failed to make request: '' (UrlError ''Get'' ''https://httpbin.org/get'' connection_refused))
   \<and> span_code (spans (world (tick default_flags (a_probe addresses (Inl connection_refused)) main_start)) ! 0) = Error
   \<and> log_level (last (logs (world (tick default_flags (a_probe addresses (Inl connection_refused)) main_start)))) = ErrorLevel
   \<and> fst (Get None (targetURL default_flags) (get_env (a_probe addresses (Inr response_200_cut))) no_world) = Inr response_200_cut
   \<and> Body response_200_cut = Inl (ErrorString ''unexpected EOF'')
   \<and> span_code (spans (world (tick default_flags (a_probe addresses (Inr response_200_cut)) main_start)) ! 0) = Error
   \<and> log_level (last (logs (world (tick default_flags (a_probe addresses (Inr response_200_cut)) main_start)))) = ErrorLevel"
  using
    probe_outcome_classification
      [of None "targetURL default_flags" "a_probe addresses (Inr response_200)" no_world response_200 "''test response''"
          default_flags main_start "ErrorString []" "[]"]
    probe_outcome_classification
      [of None "targetURL default_flags" "a_probe addresses (Inr response_500)" no_world response_500 "''internal server error''"
          default_flags main_start "ErrorString []" "[]"]
    probe_outcome_classification
      [of None "targetURL default_flags" "a_probe addresses (Inl connection_refused)" no_world response_200 "[]"
          default_flags main_start "WrapError ''failed to make request: '' (UrlError ''Get'' ''https://httpbin.org/get'' connection_refused)" "[]"]
    probe_outcome_classification
      [of None "targetURL default_flags" "a_probe addresses (Inr response_200_cut)" no_world response_200_cut "[]"
          default_flags main_start "ErrorString ''unexpected EOF''" "[]"]
  by (simp add: Get_a_probe response_200_def response_500_def response_200_cut_def)

text \<open>
  C6. In every run of the loop, the calls that start and end spans are strictly
  nested: a span is started as a child of the innermost span still open, under the
  name the hierarchy has for that place (\<open>dns.resolve\<close> and \<open>tcp.connect\<close> in
  \<open>http.transport\<close>, that in \<open>http.get\<close>, that in \<open>request.cycle\<close>), and only the
  innermost open span is ended, so every child is ended before its parent; a
  \<open>request.cycle\<close> is started only when no span is open, so the root span of one
  cycle is ended, with all its descendants, before the root span of the next cycle is
  started; and when the loop is between ticks no span is open. For a tick whose probe
  makes a single round trip the ten calls are, in this order: start cycle, start get,
  start transport, start and end \<open>dns.resolve\<close>, start and end \<open>tcp.connect\<close>, end
  transport, end get, end cycle.
\<close>

theorem spans_close_in_nesting_order:
  "strictly_nested (calls_made (world (request_loop fl cs main_start)))
   \<and> (NewRequest (get_env env) = Inr u \<and> Do (get_env env) = Trip h \<longrightarrow>
       calls_made (world (tick fl env s)) =
         calls_made (world s) @
           [Started (length (spans (world s))) ''request.cycle'' None,
            Started (length (spans (world s)) + 1) ''http.get'' (Some (length (spans (world s)))),
            Started (length (spans (world s)) + 2) ''http.transport''
              (Some (length (spans (world s)) + 1)),
            Started (length (spans (world s)) + 3) ''dns.resolve''
              (Some (length (spans (world s)) + 2)),
            Ended (length (spans (world s)) + 3),
            Started (length (spans (world s)) + 4) ''tcp.connect''
              (Some (length (spans (world s)) + 2)),
            Ended (length (spans (world s)) + 4),
            Ended (length (spans (world s)) + 2),
            Ended (length (spans (world s)) + 1),
            Ended (length (spans (world s)))])"
proof -
  have "nesting [] (calls_made (world (request_loop fl cs main_start))) = Some []"
    by (rule request_loop_nesting) simp
  then have "strictly_nested (calls_made (world (request_loop fl cs main_start)))"
    by (simp add: strictly_nested_def)
  then show ?thesis
    by (simp add: makeRequest_calls_Trip)
qed

theorem spans_close_in_nesting_order_witness:
  "strictly_nested (calls_made (world
     (request_loop default_flags
        [TickerC (a_probe addresses (Inr response_200)),
         TickerC (a_probe (Inl no_such_host) (Inl connection_refused))] main_start)))
   \<and> NewRequest (get_env (a_probe addresses (Inr response_200))) = Inr default_URL
   \<and> Do (get_env (a_probe addresses (Inr response_200))) = Trip (a_trip addresses (Inr response_200))
   \<and> calls_made (world (tick default_flags (a_probe addresses (Inr response_200)) main_start)) =
         [Started 0 ''request.cycle'' None,
          Started 1 ''http.get'' (Some 0),
          Started 2 ''http.transport'' (Some 1),
          Started 3 ''dns.resolve'' (Some 2),
          Ended 3,
          Started 4 ''tcp.connect'' (Some 2),
          Ended 4,
          Ended 2,
          Ended 1,
          Ended 0]"
proof -
  have h: "NewRequest (get_env (a_probe addresses (Inr response_200))) = Inr default_URL"
    "Do (get_env (a_probe addresses (Inr response_200))) = Trip (a_trip addresses (Inr response_200))"
    by (simp_all add: a_probe_def a_get_def)
  show ?thesis
    using h spans_close_in_nesting_order
      [of default_flags
          "[TickerC (a_probe addresses (Inr response_200)),
            TickerC (a_probe (Inl no_such_host) (Inl connection_refused))]"
          "a_probe addresses (Inr response_200)" default_URL
          "a_trip addresses (Inr response_200)" main_start]
    by simp
qed

text \<open>
  C10. An error that \<open>Get\<close> returns is never the underlying error itself. When the
  request cannot be built, it is that error wrapped with the prefix
  \<open>failed to create request:\<close>; otherwise it is the error \<^verbatim>\<open>Do\<close> returned, wrapped with
  the prefix \<open>failed to make request:\<close>. This holds although the transport hands its
  own error on unchanged: the error \<open>e2\<close> of the wrapped round trip leaves \<open>RoundTrip\<close> as
  \<open>e2\<close> and leaves \<open>Get\<close> inside two wrappers.
\<close>

theorem Get_never_returns_underlying_error:
  "(fst (Get c url env w) = Inl e \<longrightarrow>
      (case NewRequest env of
         Inl e0 \<Rightarrow>
           e = WrapError ''failed to create request: '' e0 \<and> e \<noteq> e0
           \<and> prefix ''failed to create request:'' (Error_msg e)
       | Inr u \<Rightarrow>
           (\<exists>e1. (\<forall>c' w'. fst (client_Do \<lparr>Method = ''GET'', Request_URL = u, Context = c'\<rparr>
                                    (Do env) w') = Inl e1)
                 \<and> e = WrapError ''failed to make request: '' e1 \<and> e \<noteq> e1
                 \<and> prefix ''failed to make request:'' (Error_msg e))))
   \<and> (NewRequest env = Inr u \<and> Do env = Trip h \<and> base_RoundTrip h = Inl e2 \<longrightarrow>
        fst (RoundTrip req h w') = Inl e2
        \<and> fst (Get c url env w) =
            Inl (WrapError ''failed to make request: '' (UrlError ''Get'' (URL_String u) e2)))"
proof -
  have wrapped: "fst (Get c url env w) = Inl e \<longrightarrow>
      (case NewRequest env of
         Inl e0 \<Rightarrow>
           e = WrapError ''failed to create request: '' e0 \<and> e \<noteq> e0
           \<and> prefix ''failed to create request:'' (Error_msg e)
       | Inr u \<Rightarrow>
           (\<exists>e1. (\<forall>c' w'. fst (client_Do \<lparr>Method = ''GET'', Request_URL = u, Context = c'\<rparr>
                                    (Do env) w') = Inl e1)
                 \<and> e = WrapError ''failed to make request: '' e1 \<and> e \<noteq> e1
                 \<and> prefix ''failed to make request:'' (Error_msg e)))"
  proof
    assume a: "fst (Get c url env w) = Inl e"
    show "case NewRequest env of
         Inl e0 \<Rightarrow>
           e = WrapError ''failed to create request: '' e0 \<and> e \<noteq> e0
           \<and> prefix ''failed to create request:'' (Error_msg e)
       | Inr u \<Rightarrow>
           (\<exists>e1. (\<forall>c' w'. fst (client_Do \<lparr>Method = ''GET'', Request_URL = u, Context = c'\<rparr>
                                    (Do env) w') = Inl e1)
                 \<and> e = WrapError ''failed to make request: '' e1 \<and> e \<noteq> e1
                 \<and> prefix ''failed to make request:'' (Error_msg e))"
    proof (cases "NewRequest env")
      case (Inl e0)
      with Get_error_wrapped [OF a] have "e = WrapError ''failed to create request: '' e0"
        by simp
      with Inl show ?thesis
        by (simp add: WrapError_neq)
    next
      case (Inr u')
      with Get_error_wrapped [OF a] obtain e1 where
        e1: "\<forall>c' w'. fst (client_Do \<lparr>Method = ''GET'', Request_URL = u', Context = c'\<rparr>
                                    (Do env) w') = Inl e1"
        and e: "e = WrapError ''failed to make request: '' e1"
        by auto
      have "e \<noteq> e1" "prefix ''failed to make request:'' (Error_msg e)"
        by (simp_all add: e WrapError_neq)
      with e1 e Inr show ?thesis
        by auto
    qed
  qed
  have chain: "NewRequest env = Inr u \<and> Do env = Trip h \<and> base_RoundTrip h = Inl e2 \<longrightarrow>
        fst (RoundTrip req h w') = Inl e2
        \<and> fst (Get c url env w) =
            Inl (WrapError ''failed to make request: '' (UrlError ''Get'' (URL_String u) e2))"
    by (simp add: RoundTrip_result Get_returns_Trip [where u = u and h = h])
  from wrapped chain show ?thesis
    by simp
qed

theorem Get_never_returns_underlying_error_witness:
  "fst (Get None ''://'' malformed_target no_world) =
     Inl (WrapError ''failed to create request: '' (ErrorString ''missing protocol scheme''))
   \<and> WrapError ''failed to create request: '' (ErrorString ''missing protocol scheme'')
        \<noteq> ErrorString ''missing protocol scheme''
   \<and> prefix ''failed to create request:''
        (Error_msg (WrapError ''failed to create request: ''
                      (ErrorString ''missing protocol scheme'')))
   \<and> NewRequest (a_get addresses (Inl connection_refused)) = Inr default_URL
   \<and> Do (a_get addresses (Inl connection_refused)) = Trip (a_trip addresses (Inl connection_refused))
   \<and> base_RoundTrip (a_trip addresses (Inl connection_refused)) = Inl connection_refused
   \<and> fst (RoundTrip a_request (a_trip addresses (Inl connection_refused)) no_world)
       = Inl connection_refused
   \<and> fst (Get None ''https://httpbin.org/get'' (a_get addresses (Inl connection_refused)) no_world) =
       Inl (WrapError ''failed to make request: ''
              (UrlError ''Get'' ''https://httpbin.org/get'' connection_refused))"
proof -
  have m: "fst (Get None ''://'' malformed_target no_world) =
     Inl (WrapError ''failed to create request: '' (ErrorString ''missing protocol scheme''))"
    by (simp add: Get_NewRequest_error malformed_target_def)
  have n: "NewRequest malformed_target = Inl (ErrorString ''missing protocol scheme'')"
    by (simp add: malformed_target_def)
  have h: "NewRequest (a_get addresses (Inl connection_refused)) = Inr default_URL"
    "Do (a_get addresses (Inl connection_refused)) = Trip (a_trip addresses (Inl connection_refused))"
    "base_RoundTrip (a_trip addresses (Inl connection_refused)) = Inl connection_refused"
    by (simp_all add: a_get_def a_trip_def)
  show ?thesis
    using m n h
      Get_never_returns_underlying_error
        [of None "''://''" malformed_target no_world
            "WrapError ''failed to create request: '' (ErrorString ''missing protocol scheme'')"
            default_URL "a_trip addresses (Inl connection_refused)" connection_refused
            a_request no_world]
      Get_never_returns_underlying_error
        [of None "''https://httpbin.org/get''" "a_get addresses (Inl connection_refused)" no_world
            "ErrorString []"
            default_URL "a_trip addresses (Inl connection_refused)" connection_refused
            a_request no_world]
    by (simp add: default_URL_def)
qed

end
